theory Spec2Isabelle
  imports Complex_Main
begin

section \<open>Numbers, arrays and strings\<close>

text \<open>
  The program is TypeScript; every price, volume and percentage is a JavaScript
  \<^verbatim>\<open>number\<close>. In the indicator pipeline, the signal detector and the session such
  values are modelled as \<^typ>\<open>real\<close>: finite numbers with exact arithmetic. Rounding
  of IEEE doubles, \<^verbatim>\<open>NaN\<close> and the two infinities are not represented there. Where
  that code can produce a non-finite value the model says so explicitly: a division
  whose divisor is zero yields \<open>None\<close> (JavaScript yields \<^verbatim>\<open>Infinity\<close> or \<^verbatim>\<open>NaN\<close>
  there, HOL would silently yield \<open>0\<close>). The risk engine is modelled on IEEE doubles,
  with their rounding, infinities and \<^verbatim>\<open>NaN\<close> (section on IEEE double arithmetic).
  Candle times are millisecond timestamps and are modelled as \<^typ>\<open>int\<close>.
  An optional field (\<^verbatim>\<open>ema7?: number\<close>) is an \<^typ>\<open>'a option\<close>, \<open>None\<close> being
  \<^verbatim>\<open>undefined\<close>. Record fields carry a short prefix where two interfaces of the
  source share a field name (\<^verbatim>\<open>time\<close>, \<^verbatim>\<open>type\<close>, \<^verbatim>\<open>price\<close>, \<^verbatim>\<open>reason\<close>).
\<close>

definition js_div :: "real \<Rightarrow> real \<Rightarrow> real option" where
  "js_div a b = (if b = 0 then None else Some (a / b))"

text \<open>Reading a JavaScript array at an index that may be out of range or negative.\<close>

definition at_index :: "'a list \<Rightarrow> int \<Rightarrow> 'a option" where
  "at_index xs i = (if 0 \<le> i \<and> i < int (length xs) then Some (xs ! nat i) else None)"

text \<open>\<^verbatim>\<open>xs.slice(-n)\<close>: the last \<open>n\<close> elements (all of them when there are fewer).\<close>

definition slice_last :: "nat \<Rightarrow> 'a list \<Rightarrow> 'a list" where
  "slice_last n xs = drop (length xs - n) xs"

text \<open>\<^verbatim>\<open>s.includes(sub)\<close>: \<open>sub\<close> occurs in \<open>s\<close> as a contiguous substring.\<close>

fun startsWith :: "string \<Rightarrow> string \<Rightarrow> bool" where
  "startsWith s [] = True"
| "startsWith [] (c # cs) = False"
| "startsWith (x # xs) (c # cs) = (x = c \<and> startsWith xs cs)"

fun str_includes :: "string \<Rightarrow> string \<Rightarrow> bool" where
  "str_includes [] sub = (sub = [])"
| "str_includes (x # xs) sub = (startsWith (x # xs) sub \<or> str_includes xs sub)"

section \<open>Candles (binanceService)\<close>

record Candle =
  c_time :: int
  c_open :: real
  c_high :: real
  c_low :: real
  c_close :: real
  c_volume :: real
  c_isFinal :: bool

type_synonym CandleInterval = string

section \<open>IEEE double arithmetic\<close>

text \<open>
  The risk engine is arithmetic on JavaScript numbers, which are IEEE 754 binary64
  values, and what it returns depends on their rounding. An \<open>f64\<close> is a finite
  double, one of the two infinities, or \<^verbatim>\<open>NaN\<close>.
  The two zeros are identified: they compare equal, \<^verbatim>\<open>Math.abs\<close> maps both to the
  positive zero, and the only divisor of the risk engine is a result of \<^verbatim>\<open>Math.abs\<close>.
  \<open>round_double\<close> is rounding to nearest, ties to even, with 53 significant bits, the
  smallest quantum \<open>2^-1074\<close> and overflow to infinity; each arithmetic operation
  rounds the exact result of finite operands.
\<close>

datatype f64 = NegInf | Num real | PosInf | NaN

definition p2 :: "int \<Rightarrow> real" where
  "p2 e = 2 powr real_of_int e"

text \<open>The binade of \<open>x\<close> is the \<open>k\<close> with \<open>2^k \<le> |x| < 2^(k+1)\<close>.\<close>

definition binade :: "real \<Rightarrow> int" where
  "binade x = \<lfloor>log 2 \<bar>x\<bar>\<rfloor>"

text \<open>The spacing of the doubles around \<open>x\<close>.\<close>

definition quantum :: "real \<Rightarrow> real" where
  "quantum x = p2 (max (binade x - 52) (- 1074))"

definition round_even :: "real \<Rightarrow> int" where
  "round_even y =
     (let f = \<lfloor>y\<rfloor> in
      if y - real_of_int f < 1 / 2 then f
      else if y - real_of_int f > 1 / 2 then f + 1
      else if even f then f else f + 1)"

definition max_double :: real where
  "max_double = (2 ^ 53 - 1) * p2 971"

definition round_double :: "real \<Rightarrow> f64" where
  "round_double x =
     (if x = 0 then Num 0
      else let r = real_of_int (round_even (x / quantum x)) * quantum x in
           if r > max_double then PosInf
           else if r < - max_double then NegInf
           else Num r)"

text \<open>The reals on the grid of the doubles, with no bound on the exponent.\<close>

definition grid :: "real \<Rightarrow> bool" where
  "grid d \<longleftrightarrow> (\<exists>m e. d = real_of_int m * p2 e \<and> \<bar>m\<bar> \<le> 2 ^ 53 \<and> - 1074 \<le> e)"

text \<open>A real is a double when rounding leaves it unchanged.\<close>

definition is_double :: "real \<Rightarrow> bool" where
  "is_double x \<longleftrightarrow> round_double x = Num x"

fun f64_neg :: "f64 \<Rightarrow> f64" where
  "f64_neg NegInf = PosInf"
| "f64_neg (Num a) = Num (- a)"
| "f64_neg PosInf = NegInf"
| "f64_neg NaN = NaN"

fun f64_abs :: "f64 \<Rightarrow> f64" where
  "f64_abs NegInf = PosInf"
| "f64_abs (Num a) = Num \<bar>a\<bar>"
| "f64_abs PosInf = PosInf"
| "f64_abs NaN = NaN"

fun f64_sgn :: "f64 \<Rightarrow> real" where
  "f64_sgn NegInf = - 1"
| "f64_sgn (Num a) = sgn a"
| "f64_sgn PosInf = 1"
| "f64_sgn NaN = 0"

text \<open>The infinity of a given sign; \<^verbatim>\<open>NaN\<close> for the sign 0 (infinity times zero, zero by zero).\<close>

definition inf_of :: "real \<Rightarrow> f64" where
  "inf_of s = (if s > 0 then PosInf else if s < 0 then NegInf else NaN)"

fun f64_add :: "f64 \<Rightarrow> f64 \<Rightarrow> f64" where
  "f64_add (Num a) (Num b) = round_double (a + b)"
| "f64_add NaN y = NaN"
| "f64_add x NaN = NaN"
| "f64_add PosInf NegInf = NaN"
| "f64_add NegInf PosInf = NaN"
| "f64_add PosInf y = PosInf"
| "f64_add NegInf y = NegInf"
| "f64_add (Num a) y = y"

definition f64_sub :: "f64 \<Rightarrow> f64 \<Rightarrow> f64" where
  "f64_sub x y = f64_add x (f64_neg y)"

fun f64_mul :: "f64 \<Rightarrow> f64 \<Rightarrow> f64" where
  "f64_mul (Num a) (Num b) = round_double (a * b)"
| "f64_mul NaN y = NaN"
| "f64_mul x NaN = NaN"
| "f64_mul x y = inf_of (f64_sgn x * f64_sgn y)"

fun f64_div :: "f64 \<Rightarrow> f64 \<Rightarrow> f64" where
  "f64_div (Num a) (Num b) = (if b = 0 then inf_of (sgn a) else round_double (a / b))"
| "f64_div NaN y = NaN"
| "f64_div x NaN = NaN"
| "f64_div (Num a) y = Num 0"
| "f64_div x (Num b) = inf_of (f64_sgn x * (if b < 0 then - 1 else 1))"
| "f64_div x y = NaN"

text \<open>Comparisons: every comparison with \<^verbatim>\<open>NaN\<close> is false.\<close>

fun f64_le :: "f64 \<Rightarrow> f64 \<Rightarrow> bool" where
  "f64_le NaN y = False"
| "f64_le x NaN = False"
| "f64_le (Num a) (Num b) = (a \<le> b)"
| "f64_le NegInf y = True"
| "f64_le x PosInf = True"
| "f64_le x y = False"

fun f64_lt :: "f64 \<Rightarrow> f64 \<Rightarrow> bool" where
  "f64_lt NaN y = False"
| "f64_lt x NaN = False"
| "f64_lt (Num a) (Num b) = (a < b)"
| "f64_lt PosInf y = False"
| "f64_lt x NegInf = False"
| "f64_lt x y = True"

text \<open>A value that is a double, an infinity or \<^verbatim>\<open>NaN\<close>.\<close>

fun f64_valid :: "f64 \<Rightarrow> bool" where
  "f64_valid (Num r) = is_double r"
| "f64_valid x = True"

text \<open>
  The doubles that the decimal literals \<^verbatim>\<open>0.02\<close>, \<^verbatim>\<open>0.015\<close>, \<^verbatim>\<open>0.045\<close> and \<^verbatim>\<open>1e-17\<close>
  denote (lemma \<open>literal_doubles\<close>).
\<close>

definition lit_0_02 :: real where
  "lit_0_02 = 5764607523034235 / 2 ^ 58"

definition lit_0_015 :: real where
  "lit_0_015 = 1080863910568919 / 2 ^ 56"

definition lit_0_045 :: real where
  "lit_0_045 = 3242591731706757 / 2 ^ 56"

definition lit_1e_17 :: real where
  "lit_1e_17 = 6490371073168535 / 2 ^ 109"

section \<open>Risk engine (riskService)\<close>

record RiskParams =
  accountBalance :: f64
  riskPerTradePercentage :: f64
  stopLossPercentage :: f64
  takeProfitPercentage :: f64

record TradeSetup =
  entryPrice :: f64
  stopLoss :: f64
  takeProfit :: f64
  positionSize :: f64
  riskAmount :: f64

datatype OrderSide = SideBUY | SideSELL

definition calculateTradeSetup :: "f64 \<Rightarrow> RiskParams \<Rightarrow> OrderSide \<Rightarrow> TradeSetup" where
  "calculateTradeSetup entry params side =
    (let riskAmt = f64_mul (accountBalance params) (riskPerTradePercentage params);
         sl = (if side = SideBUY
               then f64_mul entry (f64_sub (Num 1) (stopLossPercentage params))
               else f64_mul entry (f64_add (Num 1) (stopLossPercentage params)));
         tp = (if side = SideBUY
               then f64_mul entry (f64_add (Num 1) (takeProfitPercentage params))
               else f64_mul entry (f64_sub (Num 1) (takeProfitPercentage params)));
         priceDiff = f64_abs (f64_sub entry sl);
         size = f64_div riskAmt priceDiff
     in \<lparr> entryPrice = entry, stopLoss = sl, takeProfit = tp,
          positionSize = size, riskAmount = riskAmt \<rparr>)"

section \<open>Indicator pipeline (indicatorService)\<close>

record MacdValue =
  mv_macd :: real
  mv_signal :: real
  mv_histogram :: real

record BandValue =
  bv_upper :: real
  bv_middle :: real
  bv_lower :: real

record IndicatorData =
  ind_time :: int
  ema7 :: "real option"
  ema25 :: "real option"
  ema99 :: "real option"
  rsi :: "real option"
  macd :: "MacdValue option"
  bb :: "BandValue option"

text \<open>
  The indicator series themselves come from the third-party package
  \<^verbatim>\<open>technicalindicators\<close>, which is not part of the repository. Its four entry
  points are a parameter of the model: each takes its periods and the list of closes
  and returns the list of values it could compute.
\<close>

record MACDOutput =
  out_MACD :: real
  out_signal :: real
  out_histogram :: real

record BollingerBandsOutput =
  out_upper :: real
  out_middle :: real
  out_lower :: real

record IndicatorLibrary =
  EMA_calculate :: "nat \<Rightarrow> real list \<Rightarrow> real list"
  RSI_calculate :: "nat \<Rightarrow> real list \<Rightarrow> real list"
  MACD_calculate :: "nat \<Rightarrow> nat \<Rightarrow> nat \<Rightarrow> real list \<Rightarrow> MACDOutput list"
  BollingerBands_calculate :: "nat \<Rightarrow> real \<Rightarrow> real list \<Rightarrow> BollingerBandsOutput list"

text \<open>
  \<^verbatim>\<open>times.map((time, i) => ...)\<close>: one snapshot per candle. A field assigned from an
  array position that does not exist receives \<^verbatim>\<open>undefined\<close>, here \<open>None\<close>.
\<close>

definition calculateIndicators :: "IndicatorLibrary \<Rightarrow> Candle list \<Rightarrow> IndicatorData list" where
  "calculateIndicators lib candles =
    (let closes = map c_close candles;
         times = map c_time candles;
         ema7s = EMA_calculate lib 7 closes;
         ema25s = EMA_calculate lib 25 closes;
         ema99s = EMA_calculate lib 99 closes;
         rsis = RSI_calculate lib 14 closes;
         macds = MACD_calculate lib 12 26 9 closes;
         bbs = BollingerBands_calculate lib 20 2 closes
     in map (\<lambda>(time, i).
          \<lparr> ind_time = time,
            ema7 = (if i \<ge> 6 then at_index ema7s (int i - 6) else None),
            ema25 = (if i \<ge> 24 then at_index ema25s (int i - 24) else None),
            ema99 = (if i \<ge> 98 then at_index ema99s (int i - 98) else None),
            rsi = (if i \<ge> 14 then at_index rsis (int i - 14) else None),
            macd = (let macdIndex = int i - (26 + 9 - 2) in
                    if macdIndex \<ge> 0 then
                      (case at_index macds macdIndex of
                         None \<Rightarrow> None
                       | Some m \<Rightarrow> Some \<lparr> mv_macd = out_MACD m, mv_signal = out_signal m,
                                          mv_histogram = out_histogram m \<rparr>)
                    else None),
            bb = (let bbIndex = int i - 19 in
                  if bbIndex \<ge> 0 then
                    (case at_index bbs bbIndex of
                       None \<Rightarrow> None
                     | Some b \<Rightarrow> Some \<lparr> bv_upper = out_upper b, bv_middle = out_middle b,
                                        bv_lower = out_lower b \<rparr>)
                  else None) \<rparr>)
        (zip times [0 ..< length times]))"

text \<open>
  The library covers a window when, for \<open>n\<close> closes, each series has a value for
  every candle from the indicator's offset on (6, 24, 98, 14, 33 and 19).
\<close>

definition coversWindow :: "IndicatorLibrary \<Rightarrow> real list \<Rightarrow> bool" where
  "coversWindow lib closes \<longleftrightarrow>
     length closes - 6 \<le> length (EMA_calculate lib 7 closes) \<and>
     length closes - 24 \<le> length (EMA_calculate lib 25 closes) \<and>
     length closes - 98 \<le> length (EMA_calculate lib 99 closes) \<and>
     length closes - 14 \<le> length (RSI_calculate lib 14 closes) \<and>
     length closes - 33 \<le> length (MACD_calculate lib 12 26 9 closes) \<and>
     length closes - 19 \<le> length (BollingerBands_calculate lib 20 2 closes)"

record FibonacciLevels =
  fib_0 :: real
  fib_0236 :: real
  fib_0382 :: real
  fib_05 :: real
  fib_0618 :: real
  fib_0786 :: real
  fib_1 :: real

text \<open>
  The \<^verbatim>\<open>forEach\<close> loop of \<open>calculateFibonacciLevels\<close>. The running maximum starts at
  \<^verbatim>\<open>-Infinity\<close> and the running minimum at \<^verbatim>\<open>Infinity\<close>; both are \<open>None\<close> here, and
  every number is greater than the first and smaller than the second.
\<close>

fun exceeds :: "real \<Rightarrow> real option \<Rightarrow> bool" where
  "exceeds x None = True"
| "exceeds x (Some h) = (x > h)"

fun undercuts :: "real \<Rightarrow> real option \<Rightarrow> bool" where
  "undercuts x None = True"
| "undercuts x (Some l) = (x < l)"

fun scanHighLow :: "Candle list \<Rightarrow> real option \<Rightarrow> real option \<Rightarrow> real option \<times> real option" where
  "scanHighLow [] high low = (high, low)"
| "scanHighLow (c # cs) high low =
     scanHighLow cs (if exceeds (c_high c) high then Some (c_high c) else high)
                    (if undercuts (c_low c) low then Some (c_low c) else low)"

text \<open>
  \<open>None\<close> is the source's \<^verbatim>\<open>null\<close>, returned for the empty list. The second \<open>None\<close>
  branch stands for levels computed from an infinite bound; a non-empty list never
  reaches it (lemma \<open>calculateFibonacciLevels_None\<close>).
\<close>

definition calculateFibonacciLevels :: "Candle list \<Rightarrow> FibonacciLevels option" where
  "calculateFibonacciLevels candles =
    (if length candles = 0 then None
     else case scanHighLow candles None None of
       (Some high, Some low) \<Rightarrow>
         (let diff = high - low in
          Some \<lparr> fib_0 = high,
                 fib_0236 = high - 0.236 * diff,
                 fib_0382 = high - 0.382 * diff,
                 fib_05 = high - 0.5 * diff,
                 fib_0618 = high - 0.618 * diff,
                 fib_0786 = high - 0.786 * diff,
                 fib_1 = low \<rparr>)
     | _ \<Rightarrow> None)"

section \<open>Signal detector (strategyService)\<close>

datatype SignalType = BUY | SELL | NONE

record Signal =
  sig_type :: SignalType
  sig_price :: real
  sig_time :: int
  sig_reason :: string

definition noSignal :: Signal where
  "noSignal = \<lparr> sig_type = NONE, sig_price = 0, sig_time = 0, sig_reason = [] \<rparr>"

text \<open>
  The local constants of \<open>checkSignals\<close>, one definition each, in source order. A
  number used as a condition (\<^verbatim>\<open>ema7 && ...\<close>, \<^verbatim>\<open>ema99 ? ... : true\<close>) counts as
  true when it is defined and not zero.
\<close>

definition isUpTrend :: "IndicatorData \<Rightarrow> real \<Rightarrow> bool" where
  "isUpTrend cur currentPrice =
     (case ema99 cur of
        None \<Rightarrow> True
      | Some e \<Rightarrow> if e \<noteq> 0 then currentPrice > e else True)"

definition emasAligned :: "IndicatorData \<Rightarrow> bool" where
  "emasAligned cur =
     (case (ema7 cur, ema25 cur, ema99 cur) of
        (Some a, Some b, Some c) \<Rightarrow> a \<noteq> 0 \<and> b \<noteq> 0 \<and> c \<noteq> 0 \<and> a > b \<and> b > c
      | _ \<Rightarrow> False)"

definition emasAlignedBearish :: "IndicatorData \<Rightarrow> bool" where
  "emasAlignedBearish cur =
     (case (ema7 cur, ema25 cur, ema99 cur) of
        (Some a, Some b, Some c) \<Rightarrow> a \<noteq> 0 \<and> b \<noteq> 0 \<and> c \<noteq> 0 \<and> a < b \<and> b < c
      | _ \<Rightarrow> False)"

definition macdBullishCrossover :: "IndicatorData \<Rightarrow> IndicatorData \<Rightarrow> bool" where
  "macdBullishCrossover cur prev =
     (case (macd cur, macd prev) of
        (Some cm, Some pm) \<Rightarrow>
          mv_macd pm < mv_signal pm \<and> mv_macd cm > mv_signal cm
      | _ \<Rightarrow> False)"

definition macdBearishCrossover :: "IndicatorData \<Rightarrow> IndicatorData \<Rightarrow> bool" where
  "macdBearishCrossover cur prev =
     (case (macd cur, macd prev) of
        (Some cm, Some pm) \<Rightarrow>
          mv_macd pm > mv_signal pm \<and> mv_macd cm < mv_signal cm
      | _ \<Rightarrow> False)"

definition tolerance :: real where
  "tolerance = 0.005"

text \<open>
  \<^verbatim>\<open>Math.abs(currentPrice - level) / level < tolerance\<close>. For a level of zero the
  quotient is not finite and the comparison is false.
\<close>

definition nearLevel :: "real \<Rightarrow> real \<Rightarrow> bool" where
  "nearLevel currentPrice level =
     (case js_div \<bar>currentPrice - level\<bar> level of
        None \<Rightarrow> False
      | Some q \<Rightarrow> q < tolerance)"

definition nearFibSupport :: "FibonacciLevels option \<Rightarrow> real \<Rightarrow> bool" where
  "nearFibSupport fibLevels currentPrice =
     (case fibLevels of
        None \<Rightarrow> False
      | Some f \<Rightarrow> list_ex (nearLevel currentPrice) [fib_0618 f, fib_05 f, fib_0382 f])"

definition nearFibResistance :: "FibonacciLevels option \<Rightarrow> real \<Rightarrow> bool" where
  "nearFibResistance fibLevels currentPrice =
     (case fibLevels of
        None \<Rightarrow> False
      | Some f \<Rightarrow> list_ex (nearLevel currentPrice) [fib_0236 f, fib_0 f])"

text \<open>\<^verbatim>\<open>currentIndicator.rsi || 50\<close>: the default replaces every falsy value.\<close>

definition rsiVal :: "IndicatorData \<Rightarrow> real" where
  "rsiVal cur = (case rsi cur of None \<Rightarrow> 50 | Some r \<Rightarrow> if r \<noteq> 0 then r else 50)"

definition isRsiSafeBuy :: "IndicatorData \<Rightarrow> bool" where
  "isRsiSafeBuy cur = (rsiVal cur < 70)"

definition isRsiSafeSell :: "IndicatorData \<Rightarrow> bool" where
  "isRsiSafeSell cur = (rsiVal cur > 30)"

definition avgVolume :: "Candle list \<Rightarrow> real" where
  "avgVolume candles = foldl (\<lambda>acc c. acc + c_volume c) 0 (slice_last 20 candles) / 20"

definition isHighVolume :: "Candle list \<Rightarrow> bool" where
  "isHighVolume candles = (c_volume (last candles) > avgVolume candles * 1.1)"

definition checkSignals :: "Candle list \<Rightarrow> IndicatorData list \<Rightarrow> Signal" where
  "checkSignals candles indicators =
    (if length candles < 100 then noSignal
     else
       let currentPrice = c_close (last candles) in
       case at_index indicators (int (length indicators) - 1) of
         None \<Rightarrow> noSignal
       | Some currentIndicator \<Rightarrow>
       (case at_index indicators (int (length indicators) - 2) of
         None \<Rightarrow> noSignal
       | Some prevIndicator \<Rightarrow>
         (let fibLevels = calculateFibonacciLevels (slice_last 100 candles);
              up = isUpTrend currentIndicator currentPrice;
              bull = macdBullishCrossover currentIndicator prevIndicator;
              bear = macdBearishCrossover currentIndicator prevIndicator;
              support = nearFibSupport fibLevels currentPrice;
              resistance = nearFibResistance fibLevels currentPrice;
              highVolume = isHighVolume candles
          in
          if up \<and> emasAligned currentIndicator \<and> bull \<and> support \<and>
             isRsiSafeBuy currentIndicator \<and> highVolume
          then \<lparr> sig_type = BUY, sig_price = currentPrice, sig_time = c_time (last candles),
                 sig_reason = ''Convergencia: EMA(7>25>99) + MACD + Fib Soporte + RSI'' \<rparr>
          else if up \<and> emasAligned currentIndicator \<and> bull \<and>
             isRsiSafeBuy currentIndicator \<and> highVolume \<and> \<not> resistance
          then \<lparr> sig_type = BUY, sig_price = currentPrice, sig_time = c_time (last candles),
                 sig_reason = ''Convergencia: EMA(7>25>99) + MACD Bullish + RSI OK'' \<rparr>
          else if \<not> up \<and> emasAlignedBearish currentIndicator \<and> bear \<and> resistance \<and>
             isRsiSafeSell currentIndicator \<and> highVolume
          then \<lparr> sig_type = SELL, sig_price = currentPrice, sig_time = c_time (last candles),
                 sig_reason = ''Convergencia: EMA(7<25<99) + MACD + Fib Resistencia + Vol'' \<rparr>
          else if \<not> up \<and> emasAlignedBearish currentIndicator \<and> bear \<and>
             isRsiSafeSell currentIndicator \<and> highVolume \<and> \<not> support
          then \<lparr> sig_type = SELL, sig_price = currentPrice, sig_time = c_time (last candles),
                 sig_reason = ''Convergencia: EMA(7<25<99) + MACD Bearish + Volumen'' \<rparr>
          else noSignal)))"

section \<open>Session state (App)\<close>

definition INTERVALS :: "CandleInterval list" where
  "INTERVALS = [''5m'', ''15m'', ''1h'', ''4h'', ''1d'']"

record TimeframeState =
  tf_candles :: "Candle list"
  tf_indicators :: "IndicatorData list"
  tf_lastSignal :: "Signal option"

text \<open>
  The \<^verbatim>\<open>id\<close> of an alert is the string \<^verbatim>\<open>`${interval}-${signal.time}`\<close>; it is kept
  as the pair it is built from.
\<close>

record AlertHistoryItem =
  al_id :: "CandleInterval \<times> int"
  al_timestamp :: int
  al_interval :: CandleInterval
  al_type :: SignalType
  al_price :: real
  al_reason :: string

text \<open>The pieces of React state that the candle handlers read and write.\<close>

record AppState =
  timeframes :: "CandleInterval \<Rightarrow> TimeframeState"
  signals :: "Signal list"
  alertHistory :: "AlertHistoryItem list"
  activeTrade :: "TradeSetup option"

text \<open>
  What \<open>processCandles\<close> closes over: the selected interval, the account balance
  (\<^verbatim>\<open>parseFloat\<close> of the free USDT balance, or of \<^verbatim>\<open>'1000'\<close>), and the configured risk
  per trade.
\<close>

record Env =
  activeInterval :: CandleInterval
  usdtBalance :: real
  riskPerTrade :: real

definition initialState :: AppState where
  "initialState =
     \<lparr> timeframes = (\<lambda>_. \<lparr> tf_candles = [], tf_indicators = [], tf_lastSignal = None \<rparr>),
       signals = [], alertHistory = [], activeTrade = None \<rparr>"

text \<open>
  The updater passed to \<^verbatim>\<open>setSignals\<close> in \<open>processCandles\<close>, for a signal that is not
  \<open>NONE\<close>: the duplicate test against the last entry of the signal feed, the alert
  item, the trade setup for the active interval, and the feed capped at 20. The risk
  engine receives the session's numbers as the doubles they are: \<open>round_double\<close>
  leaves a double unchanged and maps the literals \<^verbatim>\<open>0.015\<close> and \<^verbatim>\<open>0.045\<close> to the
  doubles they denote.
\<close>

definition recordSignal :: "Env \<Rightarrow> CandleInterval \<Rightarrow> Signal \<Rightarrow> AppState \<Rightarrow> AppState" where
  "recordSignal env interval signal st =
    (let prev = signals st;
         isDuplicate = (length prev > 0 \<and> sig_time (last prev) = sig_time signal \<and>
                        str_includes (sig_reason (last prev)) interval)
     in if isDuplicate then st
        else
          let signalWithInterval =
                signal\<lparr> sig_reason := ''['' @ interval @ ''] '' @ sig_reason signal \<rparr>;
              alertItem = \<lparr> al_id = (interval, sig_time signal),
                            al_timestamp = sig_time signal,
                            al_interval = interval,
                            al_type = sig_type signal,
                            al_price = sig_price signal,
                            al_reason = sig_reason signal \<rparr>;
              st1 = st\<lparr> alertHistory := take 50 (alertItem # alertHistory st) \<rparr>;
              st2 = (if interval = activeInterval env then
                       let tradeRisk = \<lparr> accountBalance = round_double (usdtBalance env),
                                          riskPerTradePercentage = round_double (riskPerTrade env),
                                          stopLossPercentage = round_double 0.015,
                                          takeProfitPercentage = round_double 0.045 \<rparr>;
                           trade = calculateTradeSetup (round_double (sig_price signal)) tradeRisk
                                     (if sig_type signal = BUY then SideBUY else SideSELL)
                       in st1\<lparr> activeTrade := Some trade \<rparr>
                     else st1)
          in st2\<lparr> signals := slice_last 20 (prev @ [signalWithInterval]) \<rparr>)"

definition processCandles ::
  "IndicatorLibrary \<Rightarrow> Env \<Rightarrow> CandleInterval \<Rightarrow> Candle list \<Rightarrow> AppState \<Rightarrow> AppState" where
  "processCandles lib env interval newCandles st =
    (let indicators = calculateIndicators lib newCandles;
         signal = checkSignals newCandles indicators;
         st1 = st\<lparr> timeframes := (timeframes st)(interval :=
                 \<lparr> tf_candles = newCandles, tf_indicators = indicators,
                   tf_lastSignal = (if sig_type signal \<noteq> NONE then Some signal
                                    else tf_lastSignal (timeframes st interval)) \<rparr>) \<rparr>
     in if sig_type signal \<noteq> NONE then recordSignal env interval signal st1 else st1)"

text \<open>
  The candle window update inside the \<^verbatim>\<open>subscribeToCandles\<close> callback: replace the
  last candle when the times agree, otherwise \<^verbatim>\<open>push\<close> and, above 400, \<^verbatim>\<open>shift\<close>.
\<close>

definition applyCandle :: "Candle list \<Rightarrow> Candle \<Rightarrow> Candle list" where
  "applyCandle current newCandle =
    (if length current > 0 \<and> c_time (last current) = c_time newCandle
     then current[length current - 1 := newCandle]
     else let pushed = current @ [newCandle]
          in if length pushed > 400 then tl pushed else pushed)"

text \<open>
  The whole callback. Its own state update is applied first; the updates queued by
  \<open>processCandles\<close> follow.
\<close>

definition onCandle ::
  "IndicatorLibrary \<Rightarrow> Env \<Rightarrow> CandleInterval \<Rightarrow> Candle \<Rightarrow> AppState \<Rightarrow> AppState" where
  "onCandle lib env interval newCandle st =
    (let updated = applyCandle (tf_candles (timeframes st interval)) newCandle;
         indicators = calculateIndicators lib updated;
         signal = checkSignals updated indicators;
         st1 = st\<lparr> timeframes := (timeframes st)(interval :=
                 (timeframes st interval)\<lparr> tf_candles := updated, tf_indicators := indicators \<rparr>) \<rparr>
     in if c_isFinal newCandle \<or> sig_type signal \<noteq> NONE
        then processCandles lib env interval updated st1
        else st1)"

section \<open>A reference indicator library\<close>

text \<open>
  Modelled from the spec: the indicator series of the package \<^verbatim>\<open>technicalindicators\<close>,
  whose code is not in the repository. The spec describes them in its section on the
  indicator pipeline: an EMA of period \<open>p\<close> is seeded with the simple average of the
  first \<open>p\<close> closes and continues with \<open>ema[i] = close[i] * k + ema[i-1] * (1 - k)\<close>,
  \<open>k = 2 / (p + 1)\<close>; the RSI uses Wilder smoothing of gains and losses; the MACD is
  the difference of two EMAs with an EMA of that difference as its signal line,
  reported once both are defined; the Bollinger bands are the simple average of the
  trailing closes plus and minus a multiple of their standard deviation. These
  definitions serve as a concrete instance of \<open>IndicatorLibrary\<close>.
\<close>

fun ema_run :: "real \<Rightarrow> real \<Rightarrow> real list \<Rightarrow> real list" where
  "ema_run k prev [] = []"
| "ema_run k prev (x # xs) = (let e = x * k + prev * (1 - k) in e # ema_run k e xs)"

definition spec_EMA :: "nat \<Rightarrow> real list \<Rightarrow> real list" where
  "spec_EMA p xs =
    (if p = 0 \<or> length xs < p then []
     else let seed = sum_list (take p xs) / real p
          in seed # ema_run (2 / (real p + 1)) seed (drop p xs))"

fun changes :: "real list \<Rightarrow> real list" where
  "changes (x # y # xs) = (y - x) # changes (y # xs)"
| "changes xs = []"

definition rsi_value :: "real \<Rightarrow> real \<Rightarrow> real" where
  "rsi_value avgGain avgLoss =
    (if avgLoss = 0 then 100 else 100 - 100 / (1 + avgGain / avgLoss))"

fun rsi_run :: "nat \<Rightarrow> real \<Rightarrow> real \<Rightarrow> real list \<Rightarrow> real list" where
  "rsi_run p g l [] = []"
| "rsi_run p g l (d # ds) =
     (let g' = (g * (real p - 1) + max d 0) / real p;
          l' = (l * (real p - 1) + max (- d) 0) / real p
      in rsi_value g' l' # rsi_run p g' l' ds)"

definition spec_RSI :: "nat \<Rightarrow> real list \<Rightarrow> real list" where
  "spec_RSI p xs =
    (let ds = changes xs in
     if p = 0 \<or> length ds < p then []
     else let g = sum_list (map (\<lambda>d. max d 0) (take p ds)) / real p;
              l = sum_list (map (\<lambda>d. max (- d) 0) (take p ds)) / real p
          in rsi_value g l # rsi_run p g l (drop p ds))"

definition spec_MACD :: "nat \<Rightarrow> nat \<Rightarrow> nat \<Rightarrow> real list \<Rightarrow> MACDOutput list" where
  "spec_MACD fast slow sig xs =
    (let line = map (\<lambda>(f, s). f - s) (zip (drop (slow - fast) (spec_EMA fast xs)) (spec_EMA slow xs));
         sigs = spec_EMA sig line
     in map (\<lambda>(m, s). \<lparr> out_MACD = m, out_signal = s, out_histogram = m - s \<rparr>)
            (zip (drop (sig - 1) line) sigs))"

definition band_at :: "nat \<Rightarrow> real \<Rightarrow> real list \<Rightarrow> nat \<Rightarrow> BollingerBandsOutput" where
  "band_at p k xs j =
    (let w = take p (drop j xs);
         mid = sum_list w / real p;
         sd = sqrt (sum_list (map (\<lambda>x. (x - mid)\<^sup>2) w) / real p)
     in \<lparr> out_upper = mid + k * sd, out_middle = mid, out_lower = mid - k * sd \<rparr>)"

definition spec_BollingerBands :: "nat \<Rightarrow> real \<Rightarrow> real list \<Rightarrow> BollingerBandsOutput list" where
  "spec_BollingerBands p k xs =
    (if p = 0 then [] else map (band_at p k xs) [0 ..< length xs + 1 - p])"

definition spec_library :: IndicatorLibrary where
  "spec_library =
     \<lparr> EMA_calculate = spec_EMA, RSI_calculate = spec_RSI,
       MACD_calculate = spec_MACD, BollingerBands_calculate = spec_BollingerBands \<rparr>"

section \<open>Sample inputs\<close>

text \<open>A window of \<open>n\<close> identical candles at price 100, one per minute.\<close>

definition flatCandle :: "nat \<Rightarrow> Candle" where
  "flatCandle t = \<lparr> c_time = int t * 60000, c_open = 100, c_high = 100, c_low = 100,
                     c_close = 100, c_volume = 1, c_isFinal = True \<rparr>"

definition flatCandles :: "nat \<Rightarrow> Candle list" where
  "flatCandles n = map flatCandle [0 ..< n]"

text \<open>
  A window of 100 candles ranging between 100 and 200 and closing at 150, whose last
  candle has a volume of 100 against 1 before. Its Fibonacci levels are 200, 176.4,
  161.8, 150, 138.2, 121.4 and 100, so the close of 150 sits on the 0.5 level. The
  second window differs in the last close, 176.4, which sits on the 0.236 level.
\<close>

definition rangeCandle :: "nat \<Rightarrow> Candle" where
  "rangeCandle t = \<lparr> c_time = int t * 60000, c_open = 150, c_high = 200, c_low = 100,
                      c_close = 150, c_volume = 1, c_isFinal = True \<rparr>"

definition supportWindow :: "Candle list" where
  "supportWindow = map rangeCandle [0 ..< 99] @ [(rangeCandle 99)\<lparr> c_volume := 100 \<rparr>]"

definition resistanceWindow :: "Candle list" where
  "resistanceWindow =
     map rangeCandle [0 ..< 99] @ [(rangeCandle 99)\<lparr> c_close := 176.4, c_volume := 100 \<rparr>]"

text \<open>Snapshots for the last two candles of such a window.\<close>

definition macdOnly :: "int \<Rightarrow> real \<Rightarrow> real \<Rightarrow> IndicatorData" where
  "macdOnly t m s =
     \<lparr> ind_time = t, ema7 = None, ema25 = None, ema99 = None, rsi = None,
       macd = Some \<lparr> mv_macd = m, mv_signal = s, mv_histogram = m - s \<rparr>, bb = None \<rparr>"

definition bullSnapshot :: IndicatorData where
  "bullSnapshot =
     \<lparr> ind_time = 5940000, ema7 = Some 140, ema25 = Some 120, ema99 = Some 100, rsi = None,
       macd = Some \<lparr> mv_macd = 1, mv_signal = 0, mv_histogram = 1 \<rparr>, bb = None \<rparr>"

definition bearSnapshot :: "real option \<Rightarrow> IndicatorData" where
  "bearSnapshot r =
     \<lparr> ind_time = 5940000, ema7 = Some 180, ema25 = Some 185, ema99 = Some 190, rsi = r,
       macd = Some \<lparr> mv_macd = - 1, mv_signal = 0, mv_histogram = - 1 \<rparr>, bb = None \<rparr>"

text \<open>The condition of claim C2 on one snapshot: its EMA and MACD fields are defined.\<close>

definition emaMacdDefined :: "IndicatorData \<Rightarrow> bool" where
  "emaMacdDefined d \<longleftrightarrow>
     ema7 d \<noteq> None \<and> ema25 d \<noteq> None \<and> ema99 d \<noteq> None \<and> macd d \<noteq> None"

text \<open>
  The crossover conditions as claim C4 words them, with a non-strict comparison on the
  previous step; \<open>macdBullishCrossover\<close> and \<open>macdBearishCrossover\<close> above are the ones
  of the source.
\<close>

definition claimed_macdBullCross :: "IndicatorData \<Rightarrow> IndicatorData \<Rightarrow> bool" where
  "claimed_macdBullCross cur prev =
     (case (macd cur, macd prev) of
        (Some cm, Some pm) \<Rightarrow>
          mv_macd pm \<le> mv_signal pm \<and> mv_macd cm > mv_signal cm
      | _ \<Rightarrow> False)"

definition claimed_macdBearCross :: "IndicatorData \<Rightarrow> IndicatorData \<Rightarrow> bool" where
  "claimed_macdBearCross cur prev =
     (case (macd cur, macd prev) of
        (Some cm, Some pm) \<Rightarrow>
          mv_macd pm \<ge> mv_signal pm \<and> mv_macd cm < mv_signal cm
      | _ \<Rightarrow> False)"

text \<open>A session environment and a BUY detection on the candle that opened at time \<open>t\<close>.\<close>

definition sampleEnv :: Env where
  "sampleEnv = \<lparr> activeInterval = ''1h'', usdtBalance = 1000, riskPerTrade = 0.02 \<rparr>"

definition detection :: "int \<Rightarrow> Signal" where
  "detection t = \<lparr> sig_type = BUY, sig_price = 150, sig_time = t,
                    sig_reason = ''Convergencia: EMA(7>25>99) + MACD + Fib Soporte + RSI'' \<rparr>"

section \<open>Properties of the double arithmetic\<close>

lemma p2_pos [simp]: "0 < p2 e" by (simp add: p2_def)
lemma p2_nonneg [simp]: "0 \<le> p2 e" by (simp add: p2_def)
lemma p2_0 [simp]: "p2 0 = 1" by (simp add: p2_def)
lemma p2_add: "p2 (a + b) = p2 a * p2 b" by (simp add: p2_def powr_add)
lemma p2_mono: "a \<le> b \<Longrightarrow> p2 a \<le> p2 b" by (simp add: p2_def)
lemma p2_nat: "0 \<le> e \<Longrightarrow> p2 e = 2 ^ nat e" by (simp add: p2_def powr_real_of_int)
lemma p2_neg: "p2 (- e) = 1 / p2 e" by (simp add: p2_def powr_minus_divide)

lemma binade_eq:
  assumes "x \<noteq> 0"
  shows "binade x = k \<longleftrightarrow> p2 k \<le> \<bar>x\<bar> \<and> \<bar>x\<bar> < p2 (k + 1)"
  using assms floor_log_eq_powr_iff [of "\<bar>x\<bar>" 2 k] by (simp add: binade_def p2_def)

lemma binade_bounds:
  assumes "x \<noteq> 0"
  shows "p2 (binade x) \<le> \<bar>x\<bar>" "\<bar>x\<bar> < p2 (binade x + 1)"
  using binade_eq [OF assms, of "binade x"] by simp_all

lemma quantum_pos [simp]: "0 < quantum x" by (simp add: quantum_def)

lemma round_even_bounds: "\<lfloor>y\<rfloor> \<le> round_even y" "round_even y \<le> \<lceil>y\<rceil>"
proof -
  show "\<lfloor>y\<rfloor> \<le> round_even y" by (simp add: round_even_def Let_def)
  have "y - real_of_int \<lfloor>y\<rfloor> \<ge> 1 / 2 \<Longrightarrow> \<lfloor>y\<rfloor> + 1 \<le> \<lceil>y\<rceil>"
    by (auto simp: ceiling_altdef)
  moreover have "\<lfloor>y\<rfloor> \<le> \<lceil>y\<rceil>" by (rule floor_le_ceiling)
  ultimately show "round_even y \<le> \<lceil>y\<rceil>"
    by (auto simp: round_even_def Let_def)
qed

lemma round_even_le: "y \<le> real_of_int j \<Longrightarrow> round_even y \<le> j"
  using round_even_bounds(2) [of y] by (meson ceiling_le order_trans)

lemma round_even_ge: "real_of_int j \<le> y \<Longrightarrow> j \<le> round_even y"
  using round_even_bounds(1) [of y] by (meson le_floor_iff order_trans)

lemma quantum_nonneg [simp]: "0 \<le> quantum x"
  by (simp add: quantum_def)

lemma quantum_exponent:
  "\<exists>E. quantum x = p2 E \<and> - 1074 \<le> E \<and> binade x - 52 \<le> E \<and>
       (E = binade x - 52 \<or> E = - 1074)"
  by (rule exI [of _ "max (binade x - 52) (- 1074)"]) (auto simp: quantum_def max_def)

text \<open>
  Between a real and a grid point above it lies a multiple of the real's quantum, and
  likewise below: rounding never crosses a grid point.
\<close>

lemma multiple_below_grid:
  assumes x: "x \<noteq> 0" and le: "x \<le> d" and g: "grid d"
  shows "\<exists>j::int. x \<le> real_of_int j * quantum x \<and> real_of_int j * quantum x \<le> d"
proof -
  obtain m e where d: "d = real_of_int m * p2 e" and m: "\<bar>m\<bar> \<le> 2 ^ 53" and e: "- 1074 \<le> e"
    using g by (auto simp: grid_def)
  obtain E where q: "quantum x = p2 E" and E: "- 1074 \<le> E" and kE: "binade x - 52 \<le> E"
    and Ecases: "E = binade x - 52 \<or> E = - 1074"
    using quantum_exponent by blast
  show ?thesis
  proof (cases "E \<le> e")
    case True
    have "p2 e = p2 (e - E) * p2 E" using p2_add [of "e - E" E] by simp
    also have "p2 (e - E) = real_of_int (2 ^ nat (e - E))" using True by (simp add: p2_nat)
    finally have "d = real_of_int (m * 2 ^ nat (e - E)) * quantum x"
      by (simp add: d q)
    then show ?thesis using le by (intro exI [of _ "m * 2 ^ nat (e - E)"]) simp
  next
    case False
    then have Eeq: "E = binade x - 52"
      using e Ecases by auto
    let ?k = "binade x"
    have "p2 e \<le> p2 (E - 1)" using False by (intro p2_mono) simp
    then have "\<bar>d\<bar> \<le> 2 ^ 53 * p2 (E - 1)"
      unfolding d abs_mult using m
      by (intro mult_mono) (simp_all add: of_int_abs [symmetric] del: of_int_abs)
    also have "2 ^ 53 * p2 (E - 1) = p2 ?k"
      using p2_add [of 53 "E - 1"] by (simp add: Eeq p2_nat)
    finally have dk: "\<bar>d\<bar> \<le> p2 ?k" .
    have xk: "p2 ?k \<le> \<bar>x\<bar>" by (rule binade_bounds [OF x])
    have qk: "real_of_int (2 ^ 52) * quantum x = p2 ?k"
      using p2_add [of 52 E] by (simp add: q Eeq p2_nat)
    show ?thesis
    proof (cases "x < 0")
      case True
      have "x \<le> real_of_int (- (2 ^ 52)) * quantum x" using xk True qk by simp
      moreover have "real_of_int (- (2 ^ 52)) * quantum x \<le> d" using dk qk by simp
      ultimately show ?thesis by blast
    next
      case False
      then have "x = p2 ?k" "d = p2 ?k" using xk dk le x by simp_all
      then show ?thesis using qk by (intro exI [of _ "2 ^ 52"]) simp
    qed
  qed
qed

lemma multiple_above_grid:
  assumes x: "x \<noteq> 0" and le: "d \<le> x" and g: "grid d"
  shows "\<exists>j::int. d \<le> real_of_int j * quantum x \<and> real_of_int j * quantum x \<le> x"
proof -
  obtain m e where d: "d = real_of_int m * p2 e" and m: "\<bar>m\<bar> \<le> 2 ^ 53" and e: "- 1074 \<le> e"
    using g by (auto simp: grid_def)
  obtain E where q: "quantum x = p2 E" and E: "- 1074 \<le> E" and kE: "binade x - 52 \<le> E"
    and Ecases: "E = binade x - 52 \<or> E = - 1074"
    using quantum_exponent by blast
  show ?thesis
  proof (cases "E \<le> e")
    case True
    have "p2 e = p2 (e - E) * p2 E" using p2_add [of "e - E" E] by simp
    also have "p2 (e - E) = real_of_int (2 ^ nat (e - E))" using True by (simp add: p2_nat)
    finally have "d = real_of_int (m * 2 ^ nat (e - E)) * quantum x"
      by (simp add: d q)
    then show ?thesis using le by (intro exI [of _ "m * 2 ^ nat (e - E)"]) simp
  next
    case False
    then have Eeq: "E = binade x - 52"
      using e Ecases by auto
    let ?k = "binade x"
    have "p2 e \<le> p2 (E - 1)" using False by (intro p2_mono) simp
    then have "\<bar>d\<bar> \<le> 2 ^ 53 * p2 (E - 1)"
      unfolding d abs_mult using m
      by (intro mult_mono) (simp_all add: of_int_abs [symmetric] del: of_int_abs)
    also have "2 ^ 53 * p2 (E - 1) = p2 ?k"
      using p2_add [of 53 "E - 1"] by (simp add: Eeq p2_nat)
    finally have dk: "\<bar>d\<bar> \<le> p2 ?k" .
    have xk: "p2 ?k \<le> \<bar>x\<bar>" by (rule binade_bounds [OF x])
    have qk: "real_of_int (2 ^ 52) * quantum x = p2 ?k"
      using p2_add [of 52 E] by (simp add: q Eeq p2_nat)
    show ?thesis
    proof (cases "0 < x")
      case True
      have "real_of_int (2 ^ 52) * quantum x \<le> x" using xk True qk by simp
      moreover have "d \<le> real_of_int (2 ^ 52) * quantum x" using dk qk by simp
      ultimately show ?thesis by blast
    next
      case False
      then have "x = - p2 ?k" "d = - p2 ?k" using xk dk le x by simp_all
      then show ?thesis using qk by (intro exI [of _ "- (2 ^ 52)"]) simp
    qed
  qed
qed

lemma rounded_le_grid:
  assumes "x \<noteq> 0" "x \<le> d" "grid d"
  shows "real_of_int (round_even (x / quantum x)) * quantum x \<le> d"
proof -
  obtain j :: int where j: "x \<le> real_of_int j * quantum x" "real_of_int j * quantum x \<le> d"
    using multiple_below_grid [OF assms] by blast
  have "x / quantum x \<le> real_of_int j" using j(1) by (simp add: pos_divide_le_eq)
  then have "round_even (x / quantum x) \<le> j" by (rule round_even_le)
  then have "real_of_int (round_even (x / quantum x)) * quantum x \<le> real_of_int j * quantum x"
    by (intro mult_right_mono) simp_all
  then show ?thesis using j(2) by linarith
qed

lemma rounded_ge_grid:
  assumes "x \<noteq> 0" "d \<le> x" "grid d"
  shows "d \<le> real_of_int (round_even (x / quantum x)) * quantum x"
proof -
  obtain j :: int where j: "d \<le> real_of_int j * quantum x" "real_of_int j * quantum x \<le> x"
    using multiple_above_grid [OF assms] by blast
  have "real_of_int j \<le> x / quantum x" using j(2) by (simp add: pos_le_divide_eq)
  then have "j \<le> round_even (x / quantum x)" by (rule round_even_ge)
  then have "real_of_int j * quantum x \<le> real_of_int (round_even (x / quantum x)) * quantum x"
    by (intro mult_right_mono) simp_all
  then show ?thesis using j(1) by linarith
qed

lemma max_double_pos: "0 < max_double"
  by (simp add: max_double_def)

lemma grid_0 [simp]: "grid 0"
  unfolding grid_def by (rule exI [of _ 0], rule exI [of _ 0]) simp

text \<open>Rounding is bounded by every double above its argument, and by every double below.\<close>

lemma round_double_le:
  assumes "x \<le> d" "grid d" "d \<le> max_double"
  shows "f64_le (round_double x) (Num d)"
proof (cases "x = 0")
  case True
  then show ?thesis using assms by (simp add: round_double_def)
next
  case False
  have "real_of_int (round_even (x / quantum x)) * quantum x \<le> d"
    by (rule rounded_le_grid [OF False assms(1,2)])
  then show ?thesis using False assms(3) by (simp add: round_double_def Let_def)
qed

lemma round_double_ge:
  assumes "d \<le> x" "grid d" "- max_double \<le> d"
  shows "f64_le (Num d) (round_double x)"
proof (cases "x = 0")
  case True
  then show ?thesis using assms by (simp add: round_double_def)
next
  case False
  have "d \<le> real_of_int (round_even (x / quantum x)) * quantum x"
    by (rule rounded_ge_grid [OF False assms(1,2)])
  then show ?thesis using False assms(3) by (simp add: round_double_def Let_def)
qed

lemma f64_le_antisym: "f64_le x (Num d) \<Longrightarrow> f64_le (Num d) x \<Longrightarrow> x = Num d"
  by (cases x) simp_all

lemma is_doubleI:
  assumes "grid d" "\<bar>d\<bar> \<le> max_double"
  shows "is_double d"
  unfolding is_double_def
  using round_double_le [of d d] round_double_ge [of d d] assms
  by (intro f64_le_antisym) simp_all

lemma p2_numeral:
  "p2 (numeral n) = 2 ^ numeral n"
  "p2 (- numeral n) = 1 / 2 ^ numeral n"
  "p2 1 = 2"
  "p2 (- 1) = 1 / 2"
proof -
  show pos: "p2 (numeral n) = 2 ^ numeral n" by (simp add: p2_nat)
  show "p2 (- numeral n) = 1 / 2 ^ numeral n" by (simp only: p2_neg pos)
  show one: "p2 1 = 2" by (simp add: p2_nat)
  show "p2 (- 1) = 1 / 2" by (simp only: p2_neg one)
qed

lemma p2_less_cancel: "p2 a < p2 b \<Longrightarrow> a < b"
  using p2_mono [of b a] by (cases "a < b") auto

lemma grid_dyadic: "\<bar>m\<bar> \<le> 2 ^ 53 \<Longrightarrow> - 1074 \<le> e \<Longrightarrow> grid (real_of_int m * p2 e)"
  by (auto simp: grid_def)

lemma moderate_le_max_double: "\<bar>d\<bar> \<le> 2 ^ 64 \<Longrightarrow> \<bar>d\<bar> \<le> max_double"
proof -
  have "(2::real) ^ 64 \<le> 1 * p2 971" by (simp add: p2_nat)
  also have "\<dots> \<le> max_double" unfolding max_double_def by (intro mult_right_mono) simp_all
  finally show "\<bar>d\<bar> \<le> 2 ^ 64 \<Longrightarrow> \<bar>d\<bar> \<le> max_double" by simp
qed

text \<open>Every finite result of rounding lies on the grid and within the range of the doubles.\<close>

lemma round_double_Num:
  assumes "round_double x = Num r"
  shows "grid r" "\<bar>r\<bar> \<le> max_double"
    "x \<noteq> 0 \<Longrightarrow> r = real_of_int (round_even (x / quantum x)) * quantum x"
proof -
  show form: "x \<noteq> 0 \<Longrightarrow> r = real_of_int (round_even (x / quantum x)) * quantum x"
    using assms by (auto simp: round_double_def Let_def split: if_splits)
  show "\<bar>r\<bar> \<le> max_double"
    using assms max_double_pos by (auto simp: round_double_def Let_def split: if_splits)
  show "grid r"
  proof (cases "x = 0")
    case True
    then show ?thesis using assms by (simp add: round_double_def)
  next
    case False
    obtain E where q: "quantum x = p2 E" and E: "- 1074 \<le> E" and kE: "binade x - 52 \<le> E"
      using quantum_exponent by blast
    have "\<bar>x\<bar> < p2 (binade x + 1)" by (rule binade_bounds [OF False])
    also have "\<dots> \<le> p2 (53 + E)" using kE by (intro p2_mono) simp
    also have "\<dots> = 2 ^ 53 * quantum x" using p2_add [of 53 E] by (simp add: q p2_numeral)
    finally have ax: "\<bar>x\<bar> < 2 ^ 53 * quantum x" .
    have "x \<le> 2 ^ 53 * quantum x" "- (2 ^ 53) * quantum x \<le> x" using ax by linarith+
    then have "x / quantum x \<le> real_of_int (2 ^ 53)" "real_of_int (- (2 ^ 53)) \<le> x / quantum x"
      by (simp_all add: pos_divide_le_eq pos_le_divide_eq)
    then have "round_even (x / quantum x) \<le> 2 ^ 53" "- (2 ^ 53) \<le> round_even (x / quantum x)"
      using round_even_le round_even_ge by blast+
    then have "\<bar>round_even (x / quantum x)\<bar> \<le> 2 ^ 53" by simp
    then show ?thesis
      unfolding form [OF False] q using E by (rule grid_dyadic)
  qed
qed

text \<open>A finite result is within half a quantum of the exact value.\<close>

lemma round_even_error: "\<bar>y - real_of_int (round_even y)\<bar> \<le> 1 / 2"
proof -
  have "real_of_int \<lfloor>y\<rfloor> \<le> y" "y < real_of_int \<lfloor>y\<rfloor> + 1" by linarith+
  then show ?thesis by (auto simp: round_even_def Let_def)
qed

lemma round_double_error:
  assumes "round_double x = Num r"
  shows "\<bar>x - r\<bar> \<le> quantum x / 2"
proof (cases "x = 0")
  case True
  then show ?thesis using assms by (simp add: round_double_def)
next
  case False
  let ?n = "round_even (x / quantum x)"
  have r: "r = real_of_int ?n * quantum x" by (rule round_double_Num(3) [OF assms False])
  have "quantum x \<noteq> 0" using quantum_pos [of x] by linarith
  then have "x - r = (x / quantum x - real_of_int ?n) * quantum x"
    by (simp add: r algebra_simps)
  then have "\<bar>x - r\<bar> = \<bar>x / quantum x - real_of_int ?n\<bar> * quantum x"
    by (simp add: abs_mult)
  also have "\<dots> \<le> 1 / 2 * quantum x"
    by (intro mult_right_mono round_even_error) simp
  finally show ?thesis by simp
qed

lemma is_double_grid: "is_double d \<Longrightarrow> grid d" "is_double d \<Longrightarrow> \<bar>d\<bar> \<le> max_double"
  using round_double_Num [of d d] by (simp_all add: is_double_def)

lemma round_double_is_double: "round_double x = Num r \<Longrightarrow> is_double r"
  using round_double_Num [of x r] by (intro is_doubleI)

text \<open>Rounding a concrete number in a known binade.\<close>

lemma round_double_eval:
  assumes "p2 k \<le> \<bar>x\<bar>" "\<bar>x\<bar> < p2 (k + 1)" "- 1022 \<le> k"
    "round_even (x / p2 (k - 52)) = n" "\<bar>real_of_int n * p2 (k - 52)\<bar> \<le> max_double"
  shows "round_double x = Num (real_of_int n * p2 (k - 52))"
proof -
  have "0 < \<bar>x\<bar>" using assms(1) p2_pos [of k] by linarith
  then have x: "x \<noteq> 0" by simp
  have "binade x = k" using assms(1,2) by (simp add: binade_eq [OF x])
  moreover have "max (k - 52) (- 1074) = k - 52" using assms(3) by linarith
  ultimately have q: "quantum x = p2 (k - 52)" by (simp add: quantum_def)
  have "\<not> real_of_int n * p2 (k - 52) > max_double"
    "\<not> real_of_int n * p2 (k - 52) < - max_double"
    using assms(5) by linarith+
  then show ?thesis using x assms(4) by (simp add: round_double_def Let_def q)
qed

lemma grid_multiple: "grid d \<Longrightarrow> \<exists>j::int. d = real_of_int j * p2 (- 1074)"
proof -
  assume "grid d"
  then obtain m e where d: "d = real_of_int m * p2 e" and e: "- 1074 \<le> e"
    by (auto simp: grid_def)
  have "p2 e = p2 (e + 1074) * p2 (- 1074)" using p2_add [of "e + 1074" "- 1074"] by simp
  also have "p2 (e + 1074) = real_of_int (2 ^ nat (e + 1074))" using e by (simp add: p2_nat)
  finally have "d = real_of_int (m * 2 ^ nat (e + 1074)) * p2 (- 1074)"
    unfolding d by (simp)
  then show ?thesis by blast
qed

text \<open>Two different doubles are at least the smallest quantum apart.\<close>

lemma doubles_apart:
  assumes "grid a" "grid b" "a < b"
  shows "a + p2 (- 1074) \<le> b"
proof -
  obtain i j :: int where a: "a = real_of_int i * p2 (- 1074)" and b: "b = real_of_int j * p2 (- 1074)"
    using assms(1,2) grid_multiple by blast
  have "real_of_int i * p2 (- 1074) < real_of_int j * p2 (- 1074)" using assms(3) a b by simp
  then have "real_of_int i < real_of_int j"
    using p2_pos [of "- 1074"] by (simp only: mult_less_cancel_right_pos)
  then have "i + 1 \<le> j" by simp
  then have "real_of_int (i + 1) \<le> real_of_int j" by (simp only: of_int_le_iff)
  then have "real_of_int (i + 1) * p2 (- 1074) \<le> real_of_int j * p2 (- 1074)"
    by (intro mult_right_mono) simp_all
  then show ?thesis unfolding a b by (simp add: algebra_simps)
qed

text \<open>A normal positive double has a grid point one quantum below and one above.\<close>

lemma double_neighbours:
  assumes "is_double v" "p2 (- 1022) \<le> v"
  shows "\<exists>q. 0 < q \<and> q \<le> v * p2 (- 52) \<and> grid (v - q) \<and> grid (v + q)"
proof -
  have pos: "0 < v" using assms(2) p2_pos [of "- 1022"] by linarith
  then have v0: "v \<noteq> 0" by simp
  let ?k = "binade v"
  have lo: "p2 ?k \<le> v" and hi: "v < p2 (?k + 1)"
    using binade_bounds [OF v0] pos by simp_all
  have "p2 (- 1022) < p2 (?k + 1)" using assms(2) hi by linarith
  then have k: "- 1022 \<le> ?k" using p2_less_cancel by fastforce
  then have "max (?k - 52) (- 1074) = ?k - 52" by linarith
  then have q: "quantum v = p2 (?k - 52)" by (simp add: quantum_def)
  let ?q = "p2 (?k - 52)"
  let ?n = "round_even (v / quantum v)"
  have form: "v = real_of_int ?n * ?q"
    using round_double_Num(3) [of v v] assms(1) v0 q by (simp add: is_double_def)
  have k52: "p2 ?k = 2 ^ 52 * ?q" using p2_add [of 52 "?k - 52"] by (simp add: p2_numeral)
  have k53: "p2 (?k + 1) = 2 ^ 53 * ?q"
    using p2_add [of 53 "?k - 52"] by (simp add: p2_numeral add.commute)
  have "2 ^ 52 * ?q \<le> real_of_int ?n * ?q" using lo form k52 by simp
  then have n_lo: "2 ^ 52 \<le> real_of_int ?n"
    using p2_pos [of "?k - 52"] by (simp only: mult_le_cancel_right_pos)
  have "real_of_int ?n * ?q < 2 ^ 53 * ?q" using hi form k53 by simp
  then have n_hi: "real_of_int ?n < 2 ^ 53"
    using p2_pos [of "?k - 52"] by (simp only: mult_less_cancel_right_pos)
  have "real_of_int (2 ^ 52) \<le> real_of_int ?n" "real_of_int ?n < real_of_int (2 ^ 53)"
    using n_lo n_hi by simp_all
  then have n_int: "2 ^ 52 \<le> ?n" "?n < 2 ^ 53"
    by (simp_all only: of_int_le_iff of_int_less_iff)
  have e: "- 1074 \<le> ?k - 52" using k by simp
  have "?q = p2 ?k * p2 (- 52)" using p2_add [of ?k "- 52"] by simp
  then have small: "?q \<le> v * p2 (- 52)"
    using lo by (simp add: mult_right_mono)
  have below: "v - ?q = real_of_int (?n - 1) * ?q"
    using form by (simp add: algebra_simps)
  have above: "v + ?q = real_of_int (?n + 1) * ?q"
    using form by (simp add: algebra_simps)
  have "grid (v - ?q)" unfolding below using n_int e by (intro grid_dyadic) simp_all
  moreover have "grid (v + ?q)" unfolding above using n_int e by (intro grid_dyadic) simp_all
  ultimately show ?thesis using small p2_pos [of "?k - 52"] by blast
qed

section \<open>Properties of the risk engine\<close>

lemma grid_1 [simp]: "grid 1"
  using grid_dyadic [of 1 0] by simp

lemma one_le_max_double: "1 \<le> max_double"
  using moderate_le_max_double [of 1] by simp

lemma f64_le_lt_trans: "f64_le x (Num a) \<Longrightarrow> a < b \<Longrightarrow> f64_lt x (Num b)"
  by (cases x) simp_all

lemma f64_lt_le_trans: "a < b \<Longrightarrow> f64_le (Num b) x \<Longrightarrow> f64_lt (Num a) x"
  by (cases x) simp_all

text \<open>\<open>1 - s\<close> rounds to at most 1, and \<open>1 + t\<close> to at least 1.\<close>

lemma one_minus_le:
  assumes "0 < s"
  shows "f64_le (f64_sub (Num 1) (Num s)) (Num 1)"
  unfolding f64_sub_def using assms
  by (simp add: round_double_le one_le_max_double)

lemma one_plus_ge:
  assumes "0 < t"
  shows "f64_le (Num 1) (f64_add (Num 1) (Num t))"
  using assms max_double_pos by (simp add: round_double_ge)

lemma times_factor_le:
  assumes "is_double v" "0 < v" "f64_le c (Num 1)"
  shows "f64_le (f64_mul (Num v) c) (Num v)"
proof (cases c)
  case (Num cv)
  then have "v * cv \<le> v" using assms(2,3) by simp
  then show ?thesis
    using is_double_grid [OF assms(1)] by (simp add: Num round_double_le)
next
  case NegInf
  then show ?thesis using assms(2) by (simp add: inf_of_def)
qed (use assms(3) in simp_all)

lemma times_factor_ge:
  assumes "is_double v" "0 < v" "f64_le (Num 1) c"
  shows "f64_le (Num v) (f64_mul (Num v) c)"
proof (cases c)
  case (Num cv)
  then have "v \<le> v * cv" using assms(2,3) by simp
  then show ?thesis
    using is_double_grid [OF assms(1)] by (simp add: Num round_double_ge)
next
  case PosInf
  then show ?thesis using assms(2) by (simp add: inf_of_def)
qed (use assms(3) in simp_all)

text \<open>
  With a percentage of at least \<open>2^-52\<close> the factor moves off 1 by a full quantum, and
  a normal entry price then moves by at least one of its own quanta.
\<close>

lemma one_minus_le_strict:
  assumes "p2 (- 52) \<le> s"
  shows "f64_le (f64_sub (Num 1) (Num s)) (Num (1 - p2 (- 52)))"
proof -
  have eq: "1 - p2 (- 52) = real_of_int (2 ^ 52 - 1) * p2 (- 52)"
    by (simp add: p2_numeral)
  have g: "grid (1 - p2 (- 52))"
    unfolding eq by (rule grid_dyadic) simp_all
  have "1 - p2 (- 52) \<le> 1" by simp
  then have m: "1 - p2 (- 52) \<le> max_double" using one_le_max_double by linarith
  show ?thesis unfolding f64_sub_def using assms g m
    by (simp add: round_double_le)
qed

lemma one_plus_ge_strict:
  assumes "p2 (- 52) \<le> t"
  shows "f64_le (Num (1 + p2 (- 52))) (f64_add (Num 1) (Num t))"
proof -
  have eq: "1 + p2 (- 52) = real_of_int (2 ^ 52 + 1) * p2 (- 52)"
    by (simp add: p2_numeral)
  have g: "grid (1 + p2 (- 52))"
    unfolding eq by (rule grid_dyadic) simp_all
  have "0 \<le> 1 + p2 (- 52)" using p2_nonneg [of "- 52"] by linarith
  then have m: "- max_double \<le> 1 + p2 (- 52)" using max_double_pos by linarith
  show ?thesis using assms g m
    by (simp add: round_double_ge)
qed

lemma times_factor_lt:
  assumes "is_double v" "p2 (- 1022) \<le> v" "f64_le c (Num (1 - p2 (- 52)))"
  shows "f64_lt (f64_mul (Num v) c) (Num v)"
proof -
  have pos: "0 < v" using assms(2) p2_pos [of "- 1022"] by linarith
  obtain q where q: "0 < q" "q \<le> v * p2 (- 52)" "grid (v - q)"
    using double_neighbours [OF assms(1,2)] by blast
  have vmax: "v - q \<le> max_double" using is_double_grid(2) [OF assms(1)] q(1) by linarith
  show ?thesis
  proof (cases c)
    case (Num cv)
    then have "cv \<le> 1 - p2 (- 52)" using assms(3) by simp
    then have "v * cv \<le> v * (1 - p2 (- 52))" using pos by (intro mult_left_mono) simp_all
    also have "\<dots> = v - v * p2 (- 52)" by (simp add: algebra_simps)
    also have "\<dots> \<le> v - q" using q(2) by linarith
    finally have "f64_le (round_double (v * cv)) (Num (v - q))"
      using q(3) vmax by (intro round_double_le)
    then have "f64_lt (round_double (v * cv)) (Num v)"
      using q(1) by (intro f64_le_lt_trans [of _ "v - q"]) simp_all
    then show ?thesis by (simp add: Num)
  next
    case NegInf
    then show ?thesis using pos by (simp add: inf_of_def)
  qed (use assms(3) in simp_all)
qed

lemma times_factor_gt:
  assumes "is_double v" "p2 (- 1022) \<le> v" "f64_le (Num (1 + p2 (- 52))) c"
  shows "f64_lt (Num v) (f64_mul (Num v) c)"
proof -
  have pos: "0 < v" using assms(2) p2_pos [of "- 1022"] by linarith
  obtain q where q: "0 < q" "q \<le> v * p2 (- 52)" "grid (v + q)"
    using double_neighbours [OF assms(1,2)] by blast
  have vmin: "- max_double \<le> v + q" using pos q(1) max_double_pos by linarith
  show ?thesis
  proof (cases c)
    case (Num cv)
    then have "1 + p2 (- 52) \<le> cv" using assms(3) by simp
    then have "v * (1 + p2 (- 52)) \<le> v * cv" using pos by (intro mult_left_mono) simp_all
    moreover have "v * (1 + p2 (- 52)) = v + v * p2 (- 52)" by (simp add: algebra_simps)
    ultimately have "v + q \<le> v * cv" using q(2) by linarith
    then have "f64_le (Num (v + q)) (round_double (v * cv))"
      using q(3) vmin by (intro round_double_ge)
    then have "f64_lt (Num v) (round_double (v * cv))"
      using q(1) by (intro f64_lt_le_trans [of _ "v + q"]) simp_all
    then show ?thesis by (simp add: Num)
  next
    case PosInf
    then show ?thesis using pos by (simp add: inf_of_def)
  qed (use assms(3) in simp_all)
qed

text \<open>The results of the operations are doubles, or not finite.\<close>

lemma round_double_valid: "f64_valid (round_double x)"
  by (cases "round_double x") (simp_all add: round_double_is_double)

lemma f64_mul_valid: "f64_valid (f64_mul (Num a) c)"
  by (cases c) (simp_all add: round_double_valid inf_of_def)

text \<open>The distance between the entry price and a different stop is not zero.\<close>

lemma distance_positive:
  assumes "is_double v" "f64_valid st" "f64_lt st (Num v) \<or> f64_lt (Num v) st"
  shows "f64_lt (Num 0) (f64_abs (f64_sub (Num v) st))"
proof (cases st)
  case (Num s)
  define u where "u = p2 (- 1074)"
  have upos: "0 < u" by (simp add: u_def)
  have gv: "grid v" and gs: "grid s"
    using assms(1,2) Num by (simp_all add: is_double_grid)
  have g1: "grid u" unfolding u_def using grid_dyadic [of 1 "- 1074"] by simp
  have g2: "grid (- u)" unfolding u_def using grid_dyadic [of "- 1" "- 1074"] by simp
  have small: "- max_double \<le> u" "- u \<le> max_double"
    using max_double_pos upos by linarith+
  consider "s < v" | "v < s" using assms(3) Num by auto
  then show ?thesis
  proof cases
    case 1
    then have "u \<le> v + - s" using doubles_apart [OF gs gv] by (simp add: u_def)
    then have "f64_le (Num u) (round_double (v + - s))"
      using g1 small by (intro round_double_ge)
    then show ?thesis
      using upos by (cases "round_double (v + - s)") (auto simp: Num f64_sub_def)
  next
    case 2
    then have "v + - s \<le> - u" using doubles_apart [OF gv gs] by (simp add: u_def)
    then have "f64_le (round_double (v + - s)) (Num (- u))"
      using g2 small by (intro round_double_le)
    then show ?thesis
      using upos by (cases "round_double (v + - s)") (auto simp: Num f64_sub_def)
  qed
qed (use assms(3) in \<open>simp_all add: f64_sub_def\<close>)

text \<open>Rounding concrete numbers, and the doubles of the source's literals.\<close>

lemma round_double_at:
  assumes "p2 k \<le> \<bar>x\<bar>" "\<bar>x\<bar> < p2 (k + 1)" "- 1022 \<le> k"
    "round_even (x / p2 (k - 52)) = n" "\<bar>real_of_int n * p2 (k - 52)\<bar> \<le> 2 ^ 64"
    "real_of_int n * p2 (k - 52) = r"
  shows "round_double x = Num r"
  using round_double_eval [OF assms(1-4)] moderate_le_max_double [OF assms(5)] assms(6)
  by simp

lemma literal_doubles:
  "round_double 0.02 = Num lit_0_02"
  "round_double 0.015 = Num lit_0_015"
  "round_double 0.045 = Num lit_0_045"
  "round_double (1 / 10 ^ 17) = Num lit_1e_17"
proof -
  show "round_double 0.02 = Num lit_0_02"
    by (rule round_double_at [of "- 6" _ 5764607523034235])
      (simp_all add: lit_0_02_def p2_numeral round_even_def Let_def)
  show "round_double 0.015 = Num lit_0_015"
    by (rule round_double_at [of "- 7" _ 8646911284551352])
      (simp_all add: lit_0_015_def p2_numeral round_even_def Let_def)
  show "round_double 0.045 = Num lit_0_045"
    by (rule round_double_at [of "- 5" _ 6485183463413514])
      (simp_all add: lit_0_045_def p2_numeral round_even_def Let_def)
  show "round_double (1 / 10 ^ 17) = Num lit_1e_17"
    by (rule round_double_at [of "- 57" _ 6490371073168535])
      (simp_all add: lit_1e_17_def p2_numeral round_even_def Let_def)
qed

lemma literals_are_doubles:
  "is_double lit_0_02" "is_double lit_0_015" "is_double lit_0_045" "is_double lit_1e_17"
  using literal_doubles by (auto intro: round_double_is_double)

lemma integers_are_doubles: "is_double 1" "is_double 20" "is_double 100" "is_double 1000"
proof -
  have "\<And>m::int. \<bar>m\<bar> \<le> 2 ^ 53 \<Longrightarrow> is_double (real_of_int m)"
  proof -
    fix m :: int assume m: "\<bar>m\<bar> \<le> 2 ^ 53"
    have "\<bar>real_of_int m\<bar> \<le> 2 ^ 64" using m by (simp add: of_int_abs [symmetric] del: of_int_abs)
    then show "is_double (real_of_int m)"
      using grid_dyadic [OF m, of 0] moderate_le_max_double by (intro is_doubleI) simp_all
  qed
  from this [of 1] this [of 20] this [of 100] this [of 1000]
  show "is_double 1" "is_double 20" "is_double 100" "is_double 1000" by simp_all
qed

text \<open>
  The trade setups of the spec's scenario (entry 100, balance 1000, risk \<^verbatim>\<open>0.02\<close>, stop
  \<^verbatim>\<open>0.015\<close>, target \<^verbatim>\<open>0.045\<close>), step by step. For BUY the stop is 98.5, the target
  104.5 and the size the double next to 13.333...; for SELL the stop is the double
  just below 101.5.
\<close>

lemma scenario_steps:
  "round_double (1000 * lit_0_02) = Num 20"
  "round_double (1 + - lit_0_015) = Num (8872091265919877 / 2 ^ 53)"
  "round_double (100 * (8872091265919877 / 2 ^ 53)) = Num (197 / 2)"
  "round_double (1 + lit_0_045) = Num (4706261610602168 / 2 ^ 52)"
  "round_double (100 * (4706261610602168 / 2 ^ 52)) = Num (209 / 2)"
  "round_double (100 + - (197 / 2)) = Num (3 / 2)"
  "round_double (20 / (3 / 2)) = Num (7505999378950827 / 2 ^ 49)"
  "round_double (1 + lit_0_015) = Num (4571153621781053 / 2 ^ 52)"
  "round_double (100 * (4571153621781053 / 2 ^ 52)) = Num (7142427534032895 / 2 ^ 46)"
  "round_double (1 + - lit_0_045) = Num (8601875288277647 / 2 ^ 53)"
  "round_double (100 * (8601875288277647 / 2 ^ 53)) = Num (191 / 2)"
  "round_double (100 + - (7142427534032895 / 2 ^ 46)) = Num (- (105553116266495 / 2 ^ 46))"
  "round_double (20 / (105553116266495 / 2 ^ 46)) = Num (3752999689475449 / 2 ^ 48)"
proof -
  show "round_double (1000 * lit_0_02) = Num 20"
    by (rule round_double_at [of 4 _ 5629499534213120])
      (simp_all add: lit_0_02_def p2_numeral round_even_def Let_def)
  show "round_double (1 + - lit_0_015) = Num (8872091265919877 / 2 ^ 53)"
    by (rule round_double_at [of "- 1" _ 8872091265919877])
      (simp_all add: lit_0_015_def p2_numeral round_even_def Let_def)
  show "round_double (100 * (8872091265919877 / 2 ^ 53)) = Num (197 / 2)"
    by (rule round_double_at [of 6 _ 6931321301499904])
      (simp_all add: p2_numeral round_even_def Let_def)
  show "round_double (1 + lit_0_045) = Num (4706261610602168 / 2 ^ 52)"
    by (rule round_double_at [of 0 _ 4706261610602168])
      (simp_all add: lit_0_045_def p2_numeral round_even_def Let_def)
  show "round_double (100 * (4706261610602168 / 2 ^ 52)) = Num (209 / 2)"
    by (rule round_double_at [of 6 _ 7353533766565888])
      (simp_all add: p2_numeral round_even_def Let_def)
  show "round_double (100 + - (197 / 2)) = Num (3 / 2)"
    by (rule round_double_at [of 0 _ 6755399441055744])
      (simp_all add: p2_numeral round_even_def Let_def)
  show "round_double (20 / (3 / 2)) = Num (7505999378950827 / 2 ^ 49)"
    by (rule round_double_at [of 3 _ 7505999378950827])
      (simp_all add: p2_numeral round_even_def Let_def)
  show "round_double (1 + lit_0_015) = Num (4571153621781053 / 2 ^ 52)"
    by (rule round_double_at [of 0 _ 4571153621781053])
      (simp_all add: lit_0_015_def p2_numeral round_even_def Let_def)
  show "round_double (100 * (4571153621781053 / 2 ^ 52)) = Num (7142427534032895 / 2 ^ 46)"
    by (rule round_double_at [of 6 _ 7142427534032895])
      (simp_all add: p2_numeral round_even_def Let_def)
  show "round_double (1 + - lit_0_045) = Num (8601875288277647 / 2 ^ 53)"
    by (rule round_double_at [of "- 1" _ 8601875288277647])
      (simp_all add: lit_0_045_def p2_numeral round_even_def Let_def)
  show "round_double (100 * (8601875288277647 / 2 ^ 53)) = Num (191 / 2)"
    by (rule round_double_at [of 6 _ 6720215068966912])
      (simp_all add: p2_numeral round_even_def Let_def)
  show "round_double (100 + - (7142427534032895 / 2 ^ 46)) = Num (- (105553116266495 / 2 ^ 46))"
    by (rule round_double_at [of 0 _ "- 6755399441055680"])
      (simp_all add: p2_numeral round_even_def Let_def)
  show "round_double (20 / (105553116266495 / 2 ^ 46)) = Num (3752999689475449 / 2 ^ 48)"
    by (rule round_double_at [of 3 _ 7505999378950898])
      (simp_all add: p2_numeral round_even_def Let_def)
qed

lemma absorbed_steps:
  "round_double (1 + - lit_1e_17) = Num 1"
  "round_double (100 * 1) = Num 100"
  "round_double (100 + - 100) = Num 0"
proof -
  show "round_double (1 + - lit_1e_17) = Num 1"
    by (rule round_double_at [of "- 1" _ "2 ^ 53"])
      (simp_all add: lit_1e_17_def p2_numeral round_even_def Let_def)
  show "round_double (100 * 1) = Num 100"
    using integers_are_doubles(3) by (simp add: is_double_def)
  show "round_double (100 + - 100) = Num 0"
    by (simp add: round_double_def)
qed

lemma scenario_ops:
  "f64_mul (Num 1000) (Num lit_0_02) = Num 20"
  "f64_sub (Num 1) (Num lit_0_015) = Num (8872091265919877 / 2 ^ 53)"
  "f64_mul (Num 100) (Num (8872091265919877 / 2 ^ 53)) = Num (197 / 2)"
  "f64_add (Num 1) (Num lit_0_045) = Num (4706261610602168 / 2 ^ 52)"
  "f64_mul (Num 100) (Num (4706261610602168 / 2 ^ 52)) = Num (209 / 2)"
  "f64_abs (f64_sub (Num 100) (Num (197 / 2))) = Num (3 / 2)"
  "f64_div (Num 20) (Num (3 / 2)) = Num (7505999378950827 / 2 ^ 49)"
  "f64_add (Num 1) (Num lit_0_015) = Num (4571153621781053 / 2 ^ 52)"
  "f64_mul (Num 100) (Num (4571153621781053 / 2 ^ 52)) = Num (7142427534032895 / 2 ^ 46)"
  "f64_sub (Num 1) (Num lit_0_045) = Num (8601875288277647 / 2 ^ 53)"
  "f64_mul (Num 100) (Num (8601875288277647 / 2 ^ 53)) = Num (191 / 2)"
  "f64_abs (f64_sub (Num 100) (Num (7142427534032895 / 2 ^ 46))) = Num (105553116266495 / 2 ^ 46)"
  "f64_div (Num 20) (Num (105553116266495 / 2 ^ 46)) = Num (3752999689475449 / 2 ^ 48)"
proof -
  show "f64_mul (Num 1000) (Num lit_0_02) = Num 20"
    "f64_mul (Num 100) (Num (8872091265919877 / 2 ^ 53)) = Num (197 / 2)"
    "f64_mul (Num 100) (Num (4706261610602168 / 2 ^ 52)) = Num (209 / 2)"
    "f64_mul (Num 100) (Num (4571153621781053 / 2 ^ 52)) = Num (7142427534032895 / 2 ^ 46)"
    "f64_mul (Num 100) (Num (8601875288277647 / 2 ^ 53)) = Num (191 / 2)"
    by (simp_all only: f64_mul.simps scenario_steps)
  show "f64_sub (Num 1) (Num lit_0_015) = Num (8872091265919877 / 2 ^ 53)"
    "f64_sub (Num 1) (Num lit_0_045) = Num (8601875288277647 / 2 ^ 53)"
    by (simp_all only: f64_sub_def f64_neg.simps f64_add.simps scenario_steps)
  show "f64_add (Num 1) (Num lit_0_045) = Num (4706261610602168 / 2 ^ 52)"
    "f64_add (Num 1) (Num lit_0_015) = Num (4571153621781053 / 2 ^ 52)"
    by (simp_all only: f64_add.simps scenario_steps)
  have "f64_sub (Num 100) (Num (197 / 2)) = Num (3 / 2)"
    by (simp only: f64_sub_def f64_neg.simps f64_add.simps scenario_steps)
  then show "f64_abs (f64_sub (Num 100) (Num (197 / 2))) = Num (3 / 2)"
    by simp
  have "f64_sub (Num 100) (Num (7142427534032895 / 2 ^ 46)) = Num (- (105553116266495 / 2 ^ 46))"
    by (simp only: f64_sub_def f64_neg.simps f64_add.simps scenario_steps)
  then show "f64_abs (f64_sub (Num 100) (Num (7142427534032895 / 2 ^ 46))) =
      Num (105553116266495 / 2 ^ 46)"
    by simp
  have nz: "(3::real) / 2 \<noteq> 0" "(105553116266495::real) / 2 ^ 46 \<noteq> 0" by simp_all
  show "f64_div (Num 20) (Num (3 / 2)) = Num (7505999378950827 / 2 ^ 49)"
    "f64_div (Num 20) (Num (105553116266495 / 2 ^ 46)) = Num (3752999689475449 / 2 ^ 48)"
    by (simp_all only: f64_div.simps nz if_False scenario_steps)
qed

lemma absorbed_ops:
  "f64_sub (Num 1) (Num lit_1e_17) = Num 1"
  "f64_mul (Num 100) (Num 1) = Num 100"
  "f64_abs (f64_sub (Num 100) (Num 100)) = Num 0"
  "f64_div (Num 20) (Num 0) = PosInf"
proof -
  show "f64_sub (Num 1) (Num lit_1e_17) = Num 1"
    by (simp only: f64_sub_def f64_neg.simps f64_add.simps absorbed_steps)
  show "f64_mul (Num 100) (Num 1) = Num 100"
    by (simp only: f64_mul.simps absorbed_steps)
  have "f64_sub (Num 100) (Num 100) = Num 0"
    by (simp only: f64_sub_def f64_neg.simps f64_add.simps absorbed_steps)
  then show "f64_abs (f64_sub (Num 100) (Num 100)) = Num 0" by simp
  show "f64_div (Num 20) (Num 0) = PosInf" by (simp add: inf_of_def)
qed

lemma calculateTradeSetup_fields:
  "entryPrice (calculateTradeSetup e p s) = e"
  "riskAmount (calculateTradeSetup e p s) =
     f64_mul (accountBalance p) (riskPerTradePercentage p)"
  "stopLoss (calculateTradeSetup e p SideBUY) = f64_mul e (f64_sub (Num 1) (stopLossPercentage p))"
  "takeProfit (calculateTradeSetup e p SideBUY) =
     f64_mul e (f64_add (Num 1) (takeProfitPercentage p))"
  "stopLoss (calculateTradeSetup e p SideSELL) = f64_mul e (f64_add (Num 1) (stopLossPercentage p))"
  "takeProfit (calculateTradeSetup e p SideSELL) =
     f64_mul e (f64_sub (Num 1) (takeProfitPercentage p))"
  "positionSize (calculateTradeSetup e p s) =
     f64_div (f64_mul (accountBalance p) (riskPerTradePercentage p))
       (f64_abs (f64_sub e (stopLoss (calculateTradeSetup e p s))))"
  by (simp_all add: calculateTradeSetup_def Let_def)

text \<open>
  Claim C1, as stated: for every positive entry price and positive risk parameters the
  stop of a BUY lies strictly below the entry price and the position size is the
  quotient of the risk amount by a positive distance. With a stop-loss percentage of
  \<^verbatim>\<open>1e-17\<close> the factor \<open>1 - 1e-17\<close> rounds to 1: the stop equals the entry price, the
  distance is zero and the position size is infinite.
\<close>

theorem C1_absorbed_stop_counterexample:
  "is_double 100 \<and> is_double 1000 \<and> is_double lit_0_02 \<and> is_double lit_1e_17 \<and>
   is_double lit_0_045 \<and> 0 < lit_0_02 \<and> 0 < lit_1e_17 \<and> 0 < lit_0_045 \<and>
   stopLoss (calculateTradeSetup (Num 100)
      \<lparr> accountBalance = Num 1000, riskPerTradePercentage = Num lit_0_02,
        stopLossPercentage = Num lit_1e_17, takeProfitPercentage = Num lit_0_045 \<rparr> SideBUY)
     = Num 100 \<and>
   \<not> f64_lt (stopLoss (calculateTradeSetup (Num 100)
      \<lparr> accountBalance = Num 1000, riskPerTradePercentage = Num lit_0_02,
        stopLossPercentage = Num lit_1e_17, takeProfitPercentage = Num lit_0_045 \<rparr> SideBUY))
     (Num 100) \<and>
   positionSize (calculateTradeSetup (Num 100)
      \<lparr> accountBalance = Num 1000, riskPerTradePercentage = Num lit_0_02,
        stopLossPercentage = Num lit_1e_17, takeProfitPercentage = Num lit_0_045 \<rparr> SideBUY)
     = PosInf"
proof -
  have lits: "0 < lit_0_02" "0 < lit_1e_17" "0 < lit_0_045"
    by (simp_all add: lit_0_02_def lit_1e_17_def lit_0_045_def)
  have stop: "stopLoss (calculateTradeSetup (Num 100)
      \<lparr> accountBalance = Num 1000, riskPerTradePercentage = Num lit_0_02,
        stopLossPercentage = Num lit_1e_17, takeProfitPercentage = Num lit_0_045 \<rparr> SideBUY)
     = Num 100"
    by (simp only: calculateTradeSetup_fields RiskParams.simps absorbed_ops)
  have size: "positionSize (calculateTradeSetup (Num 100)
      \<lparr> accountBalance = Num 1000, riskPerTradePercentage = Num lit_0_02,
        stopLossPercentage = Num lit_1e_17, takeProfitPercentage = Num lit_0_045 \<rparr> SideBUY)
     = PosInf"
    unfolding calculateTradeSetup_fields(7) stop
    by (simp only: RiskParams.simps scenario_ops absorbed_ops)
  show ?thesis
    using lits stop size integers_are_doubles literals_are_doubles by simp
qed

text \<open>
  Claim C1, amended. For every entry price and risk parameters that are finite doubles
  above zero, with every operation the IEEE double operation: the returned entry price
  is the given one, \<open>riskAmount = accountBalance * riskPerTradePercentage\<close> and
  \<open>positionSize = riskAmount / |entryPrice - stopLoss|\<close>; for BUY,
  \<open>stopLoss = entry * (1 - slPct) \<le> entry \<le> takeProfit = entry * (1 + tpPct)\<close>; for SELL,
  \<open>takeProfit = entry * (1 - tpPct) \<le> entry \<le> stopLoss = entry * (1 + slPct)\<close>. When the
  entry price is at least \<open>2^-1022\<close> and both percentages are at least \<open>2^-52\<close>, the
  inequalities are strict and the distance \<open>|entryPrice - stopLoss|\<close> is above zero.
\<close>

theorem C1_calculateTradeSetup_doubles:
  assumes dbl: "is_double e" "is_double bal" "is_double risk" "is_double sl" "is_double tp"
    and pos: "0 < e" "0 < bal" "0 < risk" "0 < sl" "0 < tp"
    and p: "p = \<lparr> accountBalance = Num bal, riskPerTradePercentage = Num risk,
                  stopLossPercentage = Num sl, takeProfitPercentage = Num tp \<rparr>"
    and t: "t = calculateTradeSetup (Num e) p s"
  shows "entryPrice t = Num e \<and>
         riskAmount t = f64_mul (Num bal) (Num risk) \<and>
         positionSize t =
           f64_div (f64_mul (Num bal) (Num risk)) (f64_abs (f64_sub (Num e) (stopLoss t))) \<and>
         (s = SideBUY \<longrightarrow>
            stopLoss t = f64_mul (Num e) (f64_sub (Num 1) (Num sl)) \<and>
            takeProfit t = f64_mul (Num e) (f64_add (Num 1) (Num tp)) \<and>
            f64_le (stopLoss t) (Num e) \<and> f64_le (Num e) (takeProfit t)) \<and>
         (s = SideSELL \<longrightarrow>
            takeProfit t = f64_mul (Num e) (f64_sub (Num 1) (Num tp)) \<and>
            stopLoss t = f64_mul (Num e) (f64_add (Num 1) (Num sl)) \<and>
            f64_le (takeProfit t) (Num e) \<and> f64_le (Num e) (stopLoss t)) \<and>
         (p2 (- 1022) \<le> e \<and> p2 (- 52) \<le> sl \<and> p2 (- 52) \<le> tp \<longrightarrow>
            (s = SideBUY \<longrightarrow> f64_lt (stopLoss t) (Num e) \<and> f64_lt (Num e) (takeProfit t)) \<and>
            (s = SideSELL \<longrightarrow> f64_lt (takeProfit t) (Num e) \<and> f64_lt (Num e) (stopLoss t)) \<and>
            f64_lt (Num 0) (f64_abs (f64_sub (Num e) (stopLoss t))))"
proof -
  have fields: "entryPrice t = Num e" "riskAmount t = f64_mul (Num bal) (Num risk)"
    "positionSize t =
       f64_div (f64_mul (Num bal) (Num risk)) (f64_abs (f64_sub (Num e) (stopLoss t)))"
    unfolding t by (simp_all add: calculateTradeSetup_fields p)
  have buy_eq: "s = SideBUY \<Longrightarrow> stopLoss t = f64_mul (Num e) (f64_sub (Num 1) (Num sl))"
    "s = SideBUY \<Longrightarrow> takeProfit t = f64_mul (Num e) (f64_add (Num 1) (Num tp))"
    unfolding t by (simp_all add: calculateTradeSetup_fields p)
  have sell_eq: "s = SideSELL \<Longrightarrow> takeProfit t = f64_mul (Num e) (f64_sub (Num 1) (Num tp))"
    "s = SideSELL \<Longrightarrow> stopLoss t = f64_mul (Num e) (f64_add (Num 1) (Num sl))"
    unfolding t by (simp_all add: calculateTradeSetup_fields p)
  have down: "\<And>q. 0 < q \<Longrightarrow> f64_le (f64_mul (Num e) (f64_sub (Num 1) (Num q))) (Num e)"
    using dbl(1) pos(1) by (intro times_factor_le one_minus_le)
  have up: "\<And>q. 0 < q \<Longrightarrow> f64_le (Num e) (f64_mul (Num e) (f64_add (Num 1) (Num q)))"
    using dbl(1) pos(1) by (intro times_factor_ge one_plus_ge)
  have buy_le: "s = SideBUY \<Longrightarrow> f64_le (stopLoss t) (Num e) \<and> f64_le (Num e) (takeProfit t)"
    using down [OF pos(4)] up [OF pos(5)] by (simp add: buy_eq)
  have sell_le: "s = SideSELL \<Longrightarrow> f64_le (takeProfit t) (Num e) \<and> f64_le (Num e) (stopLoss t)"
    using down [OF pos(5)] up [OF pos(4)] by (simp add: sell_eq)
  have strict: "(s = SideBUY \<longrightarrow> f64_lt (stopLoss t) (Num e) \<and> f64_lt (Num e) (takeProfit t)) \<and>
            (s = SideSELL \<longrightarrow> f64_lt (takeProfit t) (Num e) \<and> f64_lt (Num e) (stopLoss t)) \<and>
            f64_lt (Num 0) (f64_abs (f64_sub (Num e) (stopLoss t)))"
    if big: "p2 (- 1022) \<le> e" "p2 (- 52) \<le> sl" "p2 (- 52) \<le> tp"
  proof -
    have sdown: "\<And>q. p2 (- 52) \<le> q \<Longrightarrow>
        f64_lt (f64_mul (Num e) (f64_sub (Num 1) (Num q))) (Num e)"
      using dbl(1) big(1) by (intro times_factor_lt one_minus_le_strict)
    have sup: "\<And>q. p2 (- 52) \<le> q \<Longrightarrow>
        f64_lt (Num e) (f64_mul (Num e) (f64_add (Num 1) (Num q)))"
      using dbl(1) big(1) by (intro times_factor_gt one_plus_ge_strict)
    have b: "s = SideBUY \<Longrightarrow> f64_lt (stopLoss t) (Num e) \<and> f64_lt (Num e) (takeProfit t)"
      using sdown [OF big(2)] sup [OF big(3)] by (simp add: buy_eq)
    have c: "s = SideSELL \<Longrightarrow> f64_lt (takeProfit t) (Num e) \<and> f64_lt (Num e) (stopLoss t)"
      using sdown [OF big(3)] sup [OF big(2)] by (simp add: sell_eq)
    have valid: "f64_valid (stopLoss t)"
      by (cases s) (simp_all add: buy_eq sell_eq f64_mul_valid)
    have "f64_lt (stopLoss t) (Num e) \<or> f64_lt (Num e) (stopLoss t)"
      using b c by (cases s) simp_all
    then have "f64_lt (Num 0) (f64_abs (f64_sub (Num e) (stopLoss t)))"
      using dbl(1) valid by (intro distance_positive)
    then show ?thesis using b c by blast
  qed
  show ?thesis
    using fields buy_eq sell_eq buy_le sell_le strict by blast
qed

text \<open>
  The scenario of the spec in doubles, for both sides: entry 100, balance 1000, risk
  \<^verbatim>\<open>0.02\<close>, stop \<^verbatim>\<open>0.015\<close>, target \<^verbatim>\<open>0.045\<close>.
\<close>

theorem C1_calculateTradeSetup_doubles_witness:
  "riskAmount (calculateTradeSetup (Num 100)
      \<lparr> accountBalance = Num 1000, riskPerTradePercentage = Num lit_0_02,
        stopLossPercentage = Num lit_0_015, takeProfitPercentage = Num lit_0_045 \<rparr> SideBUY)
     = Num 20 \<and>
   stopLoss (calculateTradeSetup (Num 100)
      \<lparr> accountBalance = Num 1000, riskPerTradePercentage = Num lit_0_02,
        stopLossPercentage = Num lit_0_015, takeProfitPercentage = Num lit_0_045 \<rparr> SideBUY)
     = Num (197 / 2) \<and>
   takeProfit (calculateTradeSetup (Num 100)
      \<lparr> accountBalance = Num 1000, riskPerTradePercentage = Num lit_0_02,
        stopLossPercentage = Num lit_0_015, takeProfitPercentage = Num lit_0_045 \<rparr> SideBUY)
     = Num (209 / 2) \<and>
   positionSize (calculateTradeSetup (Num 100)
      \<lparr> accountBalance = Num 1000, riskPerTradePercentage = Num lit_0_02,
        stopLossPercentage = Num lit_0_015, takeProfitPercentage = Num lit_0_045 \<rparr> SideBUY)
     = Num (7505999378950827 / 2 ^ 49) \<and>
   f64_lt (stopLoss (calculateTradeSetup (Num 100)
      \<lparr> accountBalance = Num 1000, riskPerTradePercentage = Num lit_0_02,
        stopLossPercentage = Num lit_0_015, takeProfitPercentage = Num lit_0_045 \<rparr> SideBUY))
     (Num 100) \<and>
   stopLoss (calculateTradeSetup (Num 100)
      \<lparr> accountBalance = Num 1000, riskPerTradePercentage = Num lit_0_02,
        stopLossPercentage = Num lit_0_015, takeProfitPercentage = Num lit_0_045 \<rparr> SideSELL)
     = Num (7142427534032895 / 2 ^ 46) \<and>
   takeProfit (calculateTradeSetup (Num 100)
      \<lparr> accountBalance = Num 1000, riskPerTradePercentage = Num lit_0_02,
        stopLossPercentage = Num lit_0_015, takeProfitPercentage = Num lit_0_045 \<rparr> SideSELL)
     = Num (191 / 2) \<and>
   positionSize (calculateTradeSetup (Num 100)
      \<lparr> accountBalance = Num 1000, riskPerTradePercentage = Num lit_0_02,
        stopLossPercentage = Num lit_0_015, takeProfitPercentage = Num lit_0_045 \<rparr> SideSELL)
     = Num (3752999689475449 / 2 ^ 48) \<and>
   f64_lt (Num 100) (stopLoss (calculateTradeSetup (Num 100)
      \<lparr> accountBalance = Num 1000, riskPerTradePercentage = Num lit_0_02,
        stopLossPercentage = Num lit_0_015, takeProfitPercentage = Num lit_0_045 \<rparr> SideSELL))"
proof -
  let ?p = "\<lparr> accountBalance = Num 1000, riskPerTradePercentage = Num lit_0_02,
        stopLossPercentage = Num lit_0_015, takeProfitPercentage = Num lit_0_045 \<rparr>"
  have pos: "(0::real) < 100" "(0::real) < 1000" "0 < lit_0_02" "0 < lit_0_015" "0 < lit_0_045"
    by (simp_all add: lit_0_02_def lit_0_015_def lit_0_045_def)
  have big: "p2 (- 1022) \<le> 100" "p2 (- 52) \<le> lit_0_015" "p2 (- 52) \<le> lit_0_045"
  proof -
    have "p2 (- 1022) \<le> p2 0" by (intro p2_mono) simp
    then show "p2 (- 1022) \<le> 100" by simp
    show "p2 (- 52) \<le> lit_0_015" "p2 (- 52) \<le> lit_0_045"
      by (simp_all add: p2_numeral lit_0_015_def lit_0_045_def)
  qed
  note buy = C1_calculateTradeSetup_doubles [OF integers_are_doubles(3,4)
      literals_are_doubles(1,2,3) pos refl refl, of SideBUY]
  note sell = C1_calculateTradeSetup_doubles [OF integers_are_doubles(3,4)
      literals_are_doubles(1,2,3) pos refl refl, of SideSELL]
  have buy_stop: "stopLoss (calculateTradeSetup (Num 100) ?p SideBUY) = Num (197 / 2)"
    using buy by (simp only: scenario_ops; blast)
  have buy_target: "takeProfit (calculateTradeSetup (Num 100) ?p SideBUY) = Num (209 / 2)"
    using buy by (simp only: scenario_ops; blast)
  have buy_risk: "riskAmount (calculateTradeSetup (Num 100) ?p SideBUY) = Num 20"
    using buy by (simp only: scenario_ops; blast)
  have buy_size: "positionSize (calculateTradeSetup (Num 100) ?p SideBUY)
      = Num (7505999378950827 / 2 ^ 49)"
    using buy unfolding buy_stop by (simp only: scenario_ops; blast)
  have buy_lt: "f64_lt (stopLoss (calculateTradeSetup (Num 100) ?p SideBUY)) (Num 100)"
    using buy big by blast
  have sell_stop: "stopLoss (calculateTradeSetup (Num 100) ?p SideSELL)
      = Num (7142427534032895 / 2 ^ 46)"
    using sell by (simp only: scenario_ops; blast)
  have sell_target: "takeProfit (calculateTradeSetup (Num 100) ?p SideSELL) = Num (191 / 2)"
    using sell by (simp only: scenario_ops; blast)
  have sell_size: "positionSize (calculateTradeSetup (Num 100) ?p SideSELL)
      = Num (3752999689475449 / 2 ^ 48)"
    using sell unfolding sell_stop by (simp only: scenario_ops; blast)
  have sell_lt: "f64_lt (Num 100) (stopLoss (calculateTradeSetup (Num 100) ?p SideSELL))"
    using sell big by blast
  show ?thesis
    using buy_risk buy_stop buy_target buy_size buy_lt sell_stop sell_target sell_size sell_lt
    by blast
qed

section \<open>Properties of the Fibonacci levels\<close>

lemma scanHighLow_Some:
  "scanHighLow cs (Some h) (Some l) =
     (Some (Max (insert h (c_high ` set cs))), Some (Min (insert l (c_low ` set cs))))"
proof (induction cs arbitrary: h l)
  case Nil
  then show ?case by simp
next
  case (Cons c cs)
  have hi: "(if c_high c > h then c_high c else h) = max h (c_high c)" by (simp add: max_def)
  have lo: "(if c_low c < l then c_low c else l) = min l (c_low c)" by (simp add: min_def)
  have "scanHighLow (c # cs) (Some h) (Some l) =
          scanHighLow cs (Some (max h (c_high c))) (Some (min l (c_low c)))"
    using hi lo by (simp add: max_def min_def)
  also have "\<dots> = (Some (Max (insert (max h (c_high c)) (c_high ` set cs))),
                    Some (Min (insert (min l (c_low c)) (c_low ` set cs))))"
    by (rule Cons.IH)
  also have "Max (insert (max h (c_high c)) (c_high ` set cs)) =
             Max (insert h (c_high ` set (c # cs)))"
  proof (cases "cs = []")
    case True
    then show ?thesis by (simp add: max.commute)
  next
    case False
    then show ?thesis by (simp add: max.assoc max.left_commute)
  qed
  also have "Min (insert (min l (c_low c)) (c_low ` set cs)) =
             Min (insert l (c_low ` set (c # cs)))"
  proof (cases "cs = []")
    case True
    then show ?thesis by (simp add: min.commute)
  next
    case False
    then show ?thesis by (simp add: min.assoc min.left_commute)
  qed
  finally show ?case .
qed

lemma scanHighLow_start:
  assumes "cs \<noteq> []"
  shows "scanHighLow cs None None = (Some (Max (c_high ` set cs)), Some (Min (c_low ` set cs)))"
proof -
  obtain c rest where cs: "cs = c # rest" using assms by (cases cs) auto
  have "scanHighLow cs None None = scanHighLow rest (Some (c_high c)) (Some (c_low c))"
    by (simp add: cs)
  then show ?thesis by (simp add: scanHighLow_Some cs)
qed

lemma calculateFibonacciLevels_None: "calculateFibonacciLevels cs = None \<longleftrightarrow> cs = []"
  by (cases "cs = []") (simp_all add: calculateFibonacciLevels_def scanHighLow_start Let_def)

lemma calculateFibonacciLevels_value:
  assumes "cs \<noteq> []"
  shows "calculateFibonacciLevels cs =
     Some \<lparr> fib_0 = Max (c_high ` set cs),
            fib_0236 = Max (c_high ` set cs) - 0.236 * (Max (c_high ` set cs) - Min (c_low ` set cs)),
            fib_0382 = Max (c_high ` set cs) - 0.382 * (Max (c_high ` set cs) - Min (c_low ` set cs)),
            fib_05 = Max (c_high ` set cs) - 0.5 * (Max (c_high ` set cs) - Min (c_low ` set cs)),
            fib_0618 = Max (c_high ` set cs) - 0.618 * (Max (c_high ` set cs) - Min (c_low ` set cs)),
            fib_0786 = Max (c_high ` set cs) - 0.786 * (Max (c_high ` set cs) - Min (c_low ` set cs)),
            fib_1 = Min (c_low ` set cs) \<rparr>"
  using assms by (simp add: calculateFibonacciLevels_def scanHighLow_start Let_def)

text \<open>
  Claim C6. For a non-empty candle list, with \<open>high\<close> the maximum of the candles'
  highs and \<open>low\<close> the minimum of their lows, \<open>calculateFibonacciLevels\<close> returns
  \<open>level[r] = high - r * (high - low)\<close> for each ratio \<open>r\<close> of 0, 0.236, 0.382, 0.5,
  0.618, 0.786 and 1, with \<open>level[0] = high\<close> and \<open>level[1] = low\<close>; for \<open>high = 200\<close>
  and \<open>low = 100\<close> this gives \<open>level[0.618] = 138.2\<close> and \<open>level[1] = 100\<close>.
\<close>

theorem C6_calculateFibonacciLevels:
  assumes "candles \<noteq> []"
  shows "\<exists>f. calculateFibonacciLevels candles = Some f \<and>
    (let high = Max (c_high ` set candles); low = Min (c_low ` set candles) in
       fib_0 f = high - 0 * (high - low) \<and>
       fib_0236 f = high - 0.236 * (high - low) \<and>
       fib_0382 f = high - 0.382 * (high - low) \<and>
       fib_05 f = high - 0.5 * (high - low) \<and>
       fib_0618 f = high - 0.618 * (high - low) \<and>
       fib_0786 f = high - 0.786 * (high - low) \<and>
       fib_1 f = high - 1 * (high - low) \<and>
       fib_0 f = high \<and> fib_1 f = low \<and>
       (high = 200 \<and> low = 100 \<longrightarrow> fib_0618 f = 138.2 \<and> fib_1 f = 100))"
  by (simp add: calculateFibonacciLevels_value [OF assms] Let_def)

theorem C6_calculateFibonacciLevels_witness:
  "map_option (\<lambda>f. (fib_0 f, fib_0618 f, fib_1 f))
     (calculateFibonacciLevels
        [\<lparr> c_time = 0, c_open = 160, c_high = 200, c_low = 150, c_close = 190,
           c_volume = 1, c_isFinal = True \<rparr>,
         \<lparr> c_time = 60000, c_open = 190, c_high = 195, c_low = 100, c_close = 120,
           c_volume = 1, c_isFinal = True \<rparr>])
   = Some (200, 138.2, 100)"
  using C6_calculateFibonacciLevels [of
        "[\<lparr> c_time = 0, c_open = 160, c_high = 200, c_low = 150, c_close = 190,
           c_volume = 1, c_isFinal = True \<rparr>,
         \<lparr> c_time = 60000, c_open = 190, c_high = 195, c_low = 100, c_close = 120,
           c_volume = 1, c_isFinal = True \<rparr>]"]
  by (auto simp: Let_def)

section \<open>Properties of the candle window\<close>

lemma update_last:
  assumes "w \<noteq> []"
  shows "w[length w - 1 := c] = butlast w @ [c]"
  using assms by (cases w rule: rev_cases) simp_all

lemma applyCandle_replace:
  assumes "w \<noteq> []" "c_time (last w) = c_time c"
  shows "applyCandle w c = butlast w @ [c]"
  using assms update_last [OF assms(1), of c] by (simp add: applyCandle_def)

lemma applyCandle_append:
  assumes "w = [] \<or> c_time (last w) \<noteq> c_time c"
  shows "applyCandle w c = (if length w < 400 then w @ [c] else tl w @ [c])"
proof (cases "w = []")
  case True
  then show ?thesis by (simp add: applyCandle_def)
next
  case False
  then have "tl (w @ [c]) = tl w @ [c]" by simp
  then show ?thesis using assms False by (auto simp: applyCandle_def Let_def)
qed

lemma applyCandle_length:
  "length (applyCandle w c) =
     (if w \<noteq> [] \<and> c_time (last w) = c_time c then length w
      else if length w < 400 then length w + 1 else length w)"
  by (auto simp: applyCandle_def Let_def)

lemma applyCandle_bounded: "length w \<le> 400 \<Longrightarrow> length (applyCandle w c) \<le> 400"
  by (simp add: applyCandle_length)

lemma foldl_applyCandle_bounded:
  "length w \<le> 400 \<Longrightarrow> length (foldl applyCandle w cs) \<le> 400"
  by (induction cs arbitrary: w) (simp_all add: applyCandle_bounded)

text \<open>
  Claim C7. A candle whose time equals the time of the last element replaces that
  element and leaves the window length unchanged. Any other candle is appended; when
  that would take the window beyond 400 candles the oldest one, and only that one, is
  dropped. So a window that holds 400 candles stays at 400, and a window of at most
  400 candles never grows beyond 400, whatever sequence of candles is applied.
\<close>

theorem C7_applyCandle:
  "(w \<noteq> [] \<and> c_time (last w) = c_time c \<longrightarrow>
      applyCandle w c = butlast w @ [c] \<and> length (applyCandle w c) = length w) \<and>
   (\<not> (w \<noteq> [] \<and> c_time (last w) = c_time c) \<longrightarrow>
      (length w + 1 \<le> 400 \<longrightarrow>
         applyCandle w c = w @ [c] \<and> length (applyCandle w c) = length w + 1) \<and>
      (length w + 1 > 400 \<longrightarrow>
         applyCandle w c = tl w @ [c] \<and> length (applyCandle w c) = length w)) \<and>
   (length w \<le> 400 \<longrightarrow>
      length (applyCandle w c) \<le> 400 \<and> length (foldl applyCandle w cs) \<le> 400)"
proof -
  have rep: "w \<noteq> [] \<and> c_time (last w) = c_time c \<longrightarrow>
            applyCandle w c = butlast w @ [c] \<and> length (applyCandle w c) = length w"
    by (simp add: applyCandle_replace)
  have app: "\<not> (w \<noteq> [] \<and> c_time (last w) = c_time c) \<longrightarrow>
      (length w + 1 \<le> 400 \<longrightarrow>
         applyCandle w c = w @ [c] \<and> length (applyCandle w c) = length w + 1) \<and>
      (length w + 1 > 400 \<longrightarrow>
         applyCandle w c = tl w @ [c] \<and> length (applyCandle w c) = length w)"
  proof
    assume "\<not> (w \<noteq> [] \<and> c_time (last w) = c_time c)"
    then have a: "w = [] \<or> c_time (last w) \<noteq> c_time c" by blast
    show "(length w + 1 \<le> 400 \<longrightarrow>
         applyCandle w c = w @ [c] \<and> length (applyCandle w c) = length w + 1) \<and>
      (length w + 1 > 400 \<longrightarrow>
         applyCandle w c = tl w @ [c] \<and> length (applyCandle w c) = length w)"
      by (auto simp: applyCandle_append [OF a])
  qed
  have bound: "length w \<le> 400 \<longrightarrow>
      length (applyCandle w c) \<le> 400 \<and> length (foldl applyCandle w cs) \<le> 400"
    by (simp add: applyCandle_bounded foldl_applyCandle_bounded)
  show ?thesis
    using rep app bound by blast
qed

text \<open>A full window of 400 flat candles: a new period evicts candle 0, a live update does
  not; and the first candle of an empty window.\<close>

theorem C7_applyCandle_witness:
  "length (flatCandles 400) \<le> 400 \<and>
   applyCandle (flatCandles 400) (flatCandle 400) = tl (flatCandles 400) @ [flatCandle 400] \<and>
   length (applyCandle (flatCandles 400) (flatCandle 400)) = 400 \<and>
   applyCandle (flatCandles 400) ((flatCandle 399)\<lparr> c_close := 101 \<rparr>) =
     butlast (flatCandles 400) @ [(flatCandle 399)\<lparr> c_close := 101 \<rparr>] \<and>
   length (applyCandle (flatCandles 400) ((flatCandle 399)\<lparr> c_close := 101 \<rparr>)) = 400 \<and>
   applyCandle [] (flatCandle 0) = [flatCandle 0]"
proof -
  have ne: "flatCandles 400 \<noteq> []" by (simp add: flatCandles_def)
  have l: "last (flatCandles 400) = flatCandle 399"
    by (simp add: flatCandles_def last_map last_upt)
  have t1: "c_time (last (flatCandles 400)) \<noteq> c_time (flatCandle 400)"
    by (simp add: l flatCandle_def)
  have t2: "c_time (last (flatCandles 400)) = c_time ((flatCandle 399)\<lparr> c_close := 101 \<rparr>)"
    by (simp add: l)
  have eq400: "length (flatCandles 400) = 400" by (simp add: flatCandles_def)
  show ?thesis
    using C7_applyCandle [of "flatCandles 400" "flatCandle 400" "[]"]
      C7_applyCandle [of "flatCandles 400" "(flatCandle 399)\<lparr> c_close := 101 \<rparr>" "[]"]
      C7_applyCandle [of "[]" "flatCandle 0" "[]"]
      ne t1 t2 eq400
    by simp
qed

section \<open>Properties of the indicator pipeline\<close>

lemma calculateIndicators_length: "length (calculateIndicators lib candles) = length candles"
  by (simp add: calculateIndicators_def Let_def)

lemma calculateIndicators_nth:
  assumes "i < length candles"
  shows "calculateIndicators lib candles ! i =
    \<lparr> ind_time = c_time (candles ! i),
      ema7 = (if i \<ge> 6 then
                at_index (EMA_calculate lib 7 (map c_close candles)) (int i - 6) else None),
      ema25 = (if i \<ge> 24 then
                at_index (EMA_calculate lib 25 (map c_close candles)) (int i - 24) else None),
      ema99 = (if i \<ge> 98 then
                at_index (EMA_calculate lib 99 (map c_close candles)) (int i - 98) else None),
      rsi = (if i \<ge> 14 then
                at_index (RSI_calculate lib 14 (map c_close candles)) (int i - 14) else None),
      macd = (if int i - 33 \<ge> 0 then
               (case at_index (MACD_calculate lib 12 26 9 (map c_close candles)) (int i - 33) of
                  None \<Rightarrow> None
                | Some m \<Rightarrow> Some \<lparr> mv_macd = out_MACD m, mv_signal = out_signal m,
                                   mv_histogram = out_histogram m \<rparr>)
              else None),
      bb = (if int i - 19 \<ge> 0 then
               (case at_index (BollingerBands_calculate lib 20 2 (map c_close candles)) (int i - 19) of
                  None \<Rightarrow> None
                | Some b \<Rightarrow> Some \<lparr> bv_upper = out_upper b, bv_middle = out_middle b,
                                   bv_lower = out_lower b \<rparr>)
              else None) \<rparr>"
  using assms by (simp add: calculateIndicators_def Let_def)

text \<open>The reference library covers every window.\<close>

lemma length_ema_run: "length (ema_run k prev xs) = length xs"
  by (induction xs arbitrary: prev) (simp_all add: Let_def)

lemma length_spec_EMA:
  "length (spec_EMA p xs) = (if p = 0 \<or> length xs < p then 0 else length xs - p + 1)"
  by (simp add: spec_EMA_def Let_def length_ema_run)

lemma length_changes: "length (changes xs) = length xs - 1"
  by (induction xs rule: changes.induct) simp_all

lemma length_rsi_run: "length (rsi_run p g l ds) = length ds"
  by (induction ds arbitrary: g l) (simp_all add: Let_def)

lemma length_spec_RSI:
  "length (spec_RSI p xs) = (if p = 0 \<or> length xs - 1 < p then 0 else length xs - p)"
  by (auto simp: spec_RSI_def Let_def length_rsi_run length_changes)

lemma length_spec_MACD: "length (spec_MACD 12 26 9 xs) = length xs - 33"
  by (auto simp: spec_MACD_def Let_def length_spec_EMA)

lemma length_spec_BollingerBands: "length (spec_BollingerBands 20 k xs) = length xs - 19"
  by (simp add: spec_BollingerBands_def)

lemma spec_library_covers: "coversWindow spec_library closes"
  by (auto simp: coversWindow_def spec_library_def length_spec_EMA length_spec_RSI
      length_spec_MACD length_spec_BollingerBands)

text \<open>
  Claim C5. \<open>calculateIndicators\<close> returns one snapshot per candle, and snapshot \<open>i\<close>
  carries the time of candle \<open>i\<close>. When the library returns a value for every candle
  from each indicator's offset on, snapshot \<open>i\<close> has \<open>ema7\<close> set exactly when \<open>i \<ge> 6\<close>,
  \<open>ema25\<close> exactly when \<open>i \<ge> 24\<close>, \<open>ema99\<close> exactly when \<open>i \<ge> 98\<close>, \<open>rsi\<close> exactly
  when \<open>i \<ge> 14\<close>, \<open>bb\<close> exactly when \<open>i \<ge> 19\<close> and \<open>macd\<close> exactly when
  \<open>i \<ge> 26 + 9 - 2\<close>; below its offset a field is unset.
\<close>

theorem C5_calculateIndicators:
  "length (calculateIndicators lib candles) = length candles \<and>
   (\<forall>i < length candles.
      ind_time (calculateIndicators lib candles ! i) = c_time (candles ! i)) \<and>
   (coversWindow lib (map c_close candles) \<longrightarrow>
     (\<forall>i < length candles.
        (ema7 (calculateIndicators lib candles ! i) \<noteq> None \<longleftrightarrow> 6 \<le> i) \<and>
        (ema25 (calculateIndicators lib candles ! i) \<noteq> None \<longleftrightarrow> 24 \<le> i) \<and>
        (ema99 (calculateIndicators lib candles ! i) \<noteq> None \<longleftrightarrow> 98 \<le> i) \<and>
        (rsi (calculateIndicators lib candles ! i) \<noteq> None \<longleftrightarrow> 14 \<le> i) \<and>
        (bb (calculateIndicators lib candles ! i) \<noteq> None \<longleftrightarrow> 19 \<le> i) \<and>
        (macd (calculateIndicators lib candles ! i) \<noteq> None \<longleftrightarrow> 26 + 9 - 2 \<le> i)))"
proof (intro conjI allI impI)
  show "length (calculateIndicators lib candles) = length candles"
    by (rule calculateIndicators_length)
next
  fix i assume "i < length candles"
  then show "ind_time (calculateIndicators lib candles ! i) = c_time (candles ! i)"
    by (simp add: calculateIndicators_nth)
next
  fix i
  assume cov: "coversWindow lib (map c_close candles)" and i: "i < length candles"
  let ?n = "length candles"
  let ?closes = "map c_close candles"
  have c7: "?n - 6 \<le> length (EMA_calculate lib 7 ?closes)"
    and c25: "?n - 24 \<le> length (EMA_calculate lib 25 ?closes)"
    and c99: "?n - 98 \<le> length (EMA_calculate lib 99 ?closes)"
    and cr: "?n - 14 \<le> length (RSI_calculate lib 14 ?closes)"
    and cm: "?n - 33 \<le> length (MACD_calculate lib 12 26 9 ?closes)"
    and cb: "?n - 19 \<le> length (BollingerBands_calculate lib 20 2 ?closes)"
    using cov by (simp_all add: coversWindow_def)
  show "ema7 (calculateIndicators lib candles ! i) \<noteq> None \<longleftrightarrow> 6 \<le> i"
    using i c7 by (auto simp: calculateIndicators_nth at_index_def)
  show "ema25 (calculateIndicators lib candles ! i) \<noteq> None \<longleftrightarrow> 24 \<le> i"
    using i c25 by (auto simp: calculateIndicators_nth at_index_def)
  show "ema99 (calculateIndicators lib candles ! i) \<noteq> None \<longleftrightarrow> 98 \<le> i"
    using i c99 by (auto simp: calculateIndicators_nth at_index_def)
  show "rsi (calculateIndicators lib candles ! i) \<noteq> None \<longleftrightarrow> 14 \<le> i"
    using i cr by (auto simp: calculateIndicators_nth at_index_def)
  show "bb (calculateIndicators lib candles ! i) \<noteq> None \<longleftrightarrow> 19 \<le> i"
    using i cb by (auto simp: calculateIndicators_nth at_index_def)
  show "macd (calculateIndicators lib candles ! i) \<noteq> None \<longleftrightarrow> 26 + 9 - 2 \<le> i"
    using i cm by (auto simp: calculateIndicators_nth at_index_def)
qed

text \<open>Forty flat candles through the reference library, at indices 35 and 32.\<close>

theorem C5_calculateIndicators_witness:
  "coversWindow spec_library (map c_close (flatCandles 40)) \<and>
   length (calculateIndicators spec_library (flatCandles 40)) = 40 \<and>
   ind_time (calculateIndicators spec_library (flatCandles 40) ! 35) = 2100000 \<and>
   ema7 (calculateIndicators spec_library (flatCandles 40) ! 35) \<noteq> None \<and>
   ema25 (calculateIndicators spec_library (flatCandles 40) ! 35) \<noteq> None \<and>
   ema99 (calculateIndicators spec_library (flatCandles 40) ! 35) = None \<and>
   rsi (calculateIndicators spec_library (flatCandles 40) ! 35) \<noteq> None \<and>
   bb (calculateIndicators spec_library (flatCandles 40) ! 35) \<noteq> None \<and>
   macd (calculateIndicators spec_library (flatCandles 40) ! 35) \<noteq> None \<and>
   macd (calculateIndicators spec_library (flatCandles 40) ! 32) = None"
proof -
  have len: "length (flatCandles 40) = 40" by (simp add: flatCandles_def)
  have t: "c_time (flatCandles 40 ! 35) = 2100000" by (simp add: flatCandles_def flatCandle_def)
  have cov: "coversWindow spec_library (map c_close (flatCandles 40))"
    by (rule spec_library_covers)
  note c5 = C5_calculateIndicators [of spec_library "flatCandles 40"]
  have a35: "35 < length (flatCandles 40)" and a32: "32 < length (flatCandles 40)"
    by (simp_all add: len)
  note fields = c5 [THEN conjunct2, THEN conjunct2, rule_format, OF cov]
  from fields [OF a35] have p35:
    "ema7 (calculateIndicators spec_library (flatCandles 40) ! 35) \<noteq> None \<and>
     ema25 (calculateIndicators spec_library (flatCandles 40) ! 35) \<noteq> None \<and>
     ema99 (calculateIndicators spec_library (flatCandles 40) ! 35) = None \<and>
     rsi (calculateIndicators spec_library (flatCandles 40) ! 35) \<noteq> None \<and>
     bb (calculateIndicators spec_library (flatCandles 40) ! 35) \<noteq> None \<and>
     macd (calculateIndicators spec_library (flatCandles 40) ! 35) \<noteq> None"
    by simp
  from fields [OF a32] have p32:
    "macd (calculateIndicators spec_library (flatCandles 40) ! 32) = None"
    by simp
  from c5 have l: "length (calculateIndicators spec_library (flatCandles 40)) = 40"
    by (simp add: len)
  from c5 [THEN conjunct2, THEN conjunct1, rule_format, OF a35]
  have tm: "ind_time (calculateIndicators spec_library (flatCandles 40) ! 35) = 2100000"
    by (simp add: t)
  show ?thesis using cov l tm p35 p32 by simp
qed

section \<open>Properties of the signal detector\<close>

lemma checkSignals_short: "length candles < 100 \<Longrightarrow> checkSignals candles inds = noSignal"
  by (simp add: checkSignals_def)

lemma checkSignals_no_current:
  "at_index inds (int (length inds) - 1) = None \<Longrightarrow> checkSignals candles inds = noSignal"
  by (simp add: checkSignals_def)

lemma checkSignals_no_previous:
  "at_index inds (int (length inds) - 2) = None \<Longrightarrow> checkSignals candles inds = noSignal"
  by (simp add: checkSignals_def Let_def split: option.splits)

lemma checkSignals_few_snapshots:
  "length inds < 2 \<Longrightarrow> checkSignals candles inds = noSignal"
  by (rule checkSignals_no_previous) (simp add: at_index_def)

text \<open>The shape of every result: the sentinel, or a BUY or SELL built from the last candle.\<close>

lemma checkSignals_result:
  "checkSignals candles inds = noSignal \<or>
   (100 \<le> length candles \<and>
    (\<exists>cur prev.
       at_index inds (int (length inds) - 1) = Some cur \<and>
       at_index inds (int (length inds) - 2) = Some prev \<and>
       sig_price (checkSignals candles inds) = c_close (last candles) \<and>
       sig_time (checkSignals candles inds) = c_time (last candles) \<and>
       (sig_type (checkSignals candles inds) = BUY \<and>
          emasAligned cur \<and> macdBullishCrossover cur prev \<and> isRsiSafeBuy cur \<and>
          isUpTrend cur (c_close (last candles)) \<and> isHighVolume candles
        \<or>
        sig_type (checkSignals candles inds) = SELL \<and>
          emasAlignedBearish cur \<and> macdBearishCrossover cur prev \<and> isRsiSafeSell cur \<and>
          \<not> isUpTrend cur (c_close (last candles)) \<and> isHighVolume candles)))"
proof (cases "length candles < 100")
  case True
  then show ?thesis by (simp add: checkSignals_short)
next
  case long: False
  show ?thesis
  proof (cases "at_index inds (int (length inds) - 1)")
    case None
    then show ?thesis by (simp add: checkSignals_no_current)
  next
    case cur: (Some cur)
    show ?thesis
    proof (cases "at_index inds (int (length inds) - 2)")
      case None
      then show ?thesis by (simp add: checkSignals_no_previous)
    next
      case prev: (Some prev)
      show ?thesis
        using long cur prev
        by (simp add: checkSignals_def Let_def)
    qed
  qed
qed

lemma noSignal_type: "sig_type noSignal = NONE"
  by (simp add: noSignal_def)

lemma checkSignals_NONE: "sig_type (checkSignals candles inds) = NONE \<Longrightarrow> checkSignals candles inds = noSignal"
  using checkSignals_result [of candles inds] by auto

lemma emasAligned_defined:
  "emasAligned d \<Longrightarrow> ema7 d \<noteq> None \<and> ema25 d \<noteq> None \<and> ema99 d \<noteq> None"
  by (auto simp: emasAligned_def split: option.splits)

lemma emasAlignedBearish_defined:
  "emasAlignedBearish d \<Longrightarrow> ema7 d \<noteq> None \<and> ema25 d \<noteq> None \<and> ema99 d \<noteq> None"
  by (auto simp: emasAlignedBearish_def split: option.splits)

lemma macdBullishCrossover_defined:
  "macdBullishCrossover cur prev \<Longrightarrow> macd cur \<noteq> None \<and> macd prev \<noteq> None"
  by (auto simp: macdBullishCrossover_def split: option.splits)

lemma macdBearishCrossover_defined:
  "macdBearishCrossover cur prev \<Longrightarrow> macd cur \<noteq> None \<and> macd prev \<noteq> None"
  by (auto simp: macdBearishCrossover_def split: option.splits)

text \<open>Evaluating the detector on the sample windows.\<close>

lemma foldl_volume:
  "foldl (\<lambda>acc c. acc + c_volume c) a cs = a + sum_list (map c_volume cs)"
  by (induction cs arbitrary: a) simp_all

lemma image_const:
  assumes "xs \<noteq> []" "\<forall>x \<in> set xs. f x = v"
  shows "f ` set xs = {v}"
  using assms by (cases xs) auto

lemma sum_list_const:
  assumes "\<forall>x \<in> set xs. f x = (v::real)"
  shows "sum_list (map f xs) = real (length xs) * v"
  using assms by (induction xs) (simp_all add: algebra_simps)

lemma rangeWindow_levels:
  assumes "w = map rangeCandle [0 ..< 99] @ [(rangeCandle 99)\<lparr> c_close := p, c_volume := 100 \<rparr>]"
  shows "calculateFibonacciLevels (slice_last 100 w) =
     Some \<lparr> fib_0 = 200, fib_0236 = 176.4, fib_0382 = 161.8, fib_05 = 150,
            fib_0618 = 138.2, fib_0786 = 121.4, fib_1 = 100 \<rparr>"
proof -
  have len: "length w = 100" by (simp add: assms)
  have sl: "slice_last 100 w = w" by (simp add: slice_last_def len)
  have ne: "w \<noteq> []" by (simp add: assms)
  have "\<forall>c \<in> set w. c_high c = 200" by (auto simp: assms rangeCandle_def)
  then have hi: "c_high ` set w = {200}" using ne by (intro image_const) auto
  have "\<forall>c \<in> set w. c_low c = 100" by (auto simp: assms rangeCandle_def)
  then have lo: "c_low ` set w = {100}" using ne by (intro image_const) auto
  show ?thesis
    by (simp add: sl calculateFibonacciLevels_value [OF ne] hi lo)
qed

lemma rangeWindow_volume:
  assumes "w = map rangeCandle [0 ..< 99] @ [(rangeCandle 99)\<lparr> c_close := p, c_volume := 100 \<rparr>]"
  shows "isHighVolume w"
proof -
  have len: "length w = 100" by (simp add: assms)
  have sl: "slice_last 20 w =
      map rangeCandle [80 ..< 99] @ [(rangeCandle 99)\<lparr> c_close := p, c_volume := 100 \<rparr>]"
    by (simp add: slice_last_def len) (simp add: assms drop_map)
  have "sum_list (map c_volume (map rangeCandle [80 ..< 99])) = real (length [80 ..< (99::nat)]) * 1"
    unfolding map_map by (rule sum_list_const) (simp add: rangeCandle_def)
  then have "sum_list (map c_volume (map rangeCandle [80 ..< 99])) = 19" by simp
  then have avg: "avgVolume w = 119 / 20"
    by (simp add: avgVolume_def sl foldl_volume)
  have lastv: "c_volume (last w) = 100" by (simp add: assms)
  show ?thesis by (simp add: isHighVolume_def avg lastv)
qed

lemma supportWindow_form:
  "supportWindow = map rangeCandle [0 ..< 99] @ [(rangeCandle 99)\<lparr> c_close := 150, c_volume := 100 \<rparr>]"
  by (simp add: supportWindow_def rangeCandle_def)

lemma supportWindow_last:
  "length supportWindow = 100" "c_close (last supportWindow) = 150"
  "c_time (last supportWindow) = 5940000"
  by (simp_all add: supportWindow_def rangeCandle_def)

lemma resistanceWindow_last:
  "length resistanceWindow = 100" "c_close (last resistanceWindow) = 176.4"
  "c_time (last resistanceWindow) = 5940000"
  by (simp_all add: resistanceWindow_def rangeCandle_def)

lemma pair_snapshots:
  "at_index [p, q] (int (length [p, q]) - 1) = Some q"
  "at_index [p, q] (int (length [p, q]) - 2) = Some p"
  by (simp_all add: at_index_def)

lemma checkSignals_supportWindow:
  "checkSignals supportWindow [prev, bullSnapshot] =
     (if macdBullishCrossover bullSnapshot prev
      then \<lparr> sig_type = BUY, sig_price = 150, sig_time = 5940000,
             sig_reason = ''Convergencia: EMA(7>25>99) + MACD + Fib Soporte + RSI'' \<rparr>
      else noSignal)"
proof -
  have up: "isUpTrend bullSnapshot 150" by (simp add: isUpTrend_def bullSnapshot_def)
  have al: "emasAligned bullSnapshot" by (simp add: emasAligned_def bullSnapshot_def)
  have nbear: "\<not> emasAlignedBearish bullSnapshot"
    by (simp add: emasAlignedBearish_def bullSnapshot_def)
  have safe: "isRsiSafeBuy bullSnapshot"
    by (simp add: isRsiSafeBuy_def rsiVal_def bullSnapshot_def)
  have vol: "isHighVolume supportWindow"
    by (rule rangeWindow_volume [OF supportWindow_form])
  have sup: "nearFibSupport (calculateFibonacciLevels (slice_last 100 supportWindow)) 150"
    by (simp add: rangeWindow_levels [OF supportWindow_form] nearFibSupport_def nearLevel_def
        js_div_def tolerance_def)
  show ?thesis
    using up al nbear safe vol sup
    by (simp add: checkSignals_def Let_def supportWindow_last pair_snapshots
        del: length_Cons list.size)
qed

text \<open>Windows and their trailing slices.\<close>

lemma slice_last_idem: "m \<le> n \<Longrightarrow> slice_last m (slice_last n xs) = slice_last m xs"
proof -
  assume "m \<le> n"
  then have "length xs - (length xs - n + m) + (length xs - n) = length xs - m" by arith
  then show ?thesis by (simp add: slice_last_def)
qed

lemma length_slice_last: "length (slice_last n xs) = min n (length xs)"
  by (simp add: slice_last_def)

lemma last_slice_last:
  assumes "xs \<noteq> []" "0 < n"
  shows "slice_last n xs \<noteq> []" "last (slice_last n xs) = last xs"
proof -
  have "length xs - n < length xs" using assms by (cases xs) auto
  then show "slice_last n xs \<noteq> []" "last (slice_last n xs) = last xs"
    by (simp_all add: slice_last_def)
qed

lemma at_index_slice_last:
  assumes "0 < k" "k \<le> n"
  shows "at_index (slice_last n xs) (int (length (slice_last n xs)) - int k) =
         at_index xs (int (length xs) - int k)"
proof (cases "k \<le> length xs")
  case True
  have "length xs - n + (min n (length xs) - k) = length xs - k"
    using True assms by arith
  moreover have "nat (int (min n (length xs)) - int k) = min n (length xs) - k" by simp
  moreover have "nat (int (length xs) - int k) = length xs - k" by simp
  ultimately show ?thesis
    using True assms by (simp add: at_index_def length_slice_last) (simp add: slice_last_def)
next
  case False
  then show ?thesis using assms by (simp add: at_index_def length_slice_last)
qed

text \<open>The detector depends on the last 100 candles and the last two snapshots only.\<close>

lemma checkSignals_local:
  "checkSignals candles inds = checkSignals (slice_last 100 candles) (slice_last 2 inds)"
proof (cases "length candles < 100")
  case True
  then show ?thesis by (simp add: checkSignals_short length_slice_last)
next
  case False
  then have ne: "candles \<noteq> []" by auto
  have len: "\<not> length (slice_last 100 candles) < 100"
    using False by (simp add: length_slice_last)
  have lst: "last (slice_last 100 candles) = last candles"
    using ne by (simp add: last_slice_last)
  have fib: "slice_last 100 (slice_last 100 candles) = slice_last 100 candles"
    by (simp add: slice_last_idem)
  have vol: "isHighVolume (slice_last 100 candles) = isHighVolume candles"
    by (simp add: isHighVolume_def avgVolume_def lst slice_last_idem)
  have cur: "at_index (slice_last 2 inds) (int (length (slice_last 2 inds)) - 1) =
             at_index inds (int (length inds) - 1)"
    using at_index_slice_last [of 1 2 inds] by simp
  have prev: "at_index (slice_last 2 inds) (int (length (slice_last 2 inds)) - 2) =
              at_index inds (int (length inds) - 2)"
    using at_index_slice_last [of 2 2 inds] by simp
  show ?thesis
    unfolding checkSignals_def [of candles inds]
      checkSignals_def [of "slice_last 100 candles" "slice_last 2 inds"]
    using False len by (simp only: lst fib vol cur prev if_False)
qed


lemma resistanceWindow_form:
  "resistanceWindow =
     map rangeCandle [0 ..< 99] @ [(rangeCandle 99)\<lparr> c_close := 176.4, c_volume := 100 \<rparr>]"
  by (simp add: resistanceWindow_def)

lemma checkSignals_resistanceWindow:
  "checkSignals resistanceWindow [prev, bearSnapshot r] =
     (if macdBearishCrossover (bearSnapshot r) prev \<and> isRsiSafeSell (bearSnapshot r)
      then \<lparr> sig_type = SELL, sig_price = 176.4, sig_time = 5940000,
             sig_reason = ''Convergencia: EMA(7<25<99) + MACD + Fib Resistencia + Vol'' \<rparr>
      else noSignal)"
proof -
  have up: "\<not> isUpTrend (bearSnapshot r) 176.4" by (simp add: isUpTrend_def bearSnapshot_def)
  have al: "emasAlignedBearish (bearSnapshot r)"
    by (simp add: emasAlignedBearish_def bearSnapshot_def)
  have vol: "isHighVolume resistanceWindow"
    by (rule rangeWindow_volume [OF resistanceWindow_form])
  have res: "nearFibResistance (calculateFibonacciLevels (slice_last 100 resistanceWindow)) 176.4"
    by (simp add: rangeWindow_levels [OF resistanceWindow_form] nearFibResistance_def
        nearLevel_def js_div_def tolerance_def)
  show ?thesis
    using up al vol res
    by (simp add: checkSignals_def Let_def resistanceWindow_last pair_snapshots
        del: length_Cons list.size)
qed

lemma crossover_samples:
  "macdBullishCrossover bullSnapshot (macdOnly t (- 1) 0)"
  "\<not> macdBullishCrossover bullSnapshot (macdOnly t 0 0)"
  "macdBearishCrossover (bearSnapshot r) (macdOnly t 1 0)"
  "\<not> macdBearishCrossover (bearSnapshot r) (macdOnly t 0 0)"
  by (simp_all add: macdBullishCrossover_def macdBearishCrossover_def bullSnapshot_def
      bearSnapshot_def macdOnly_def)

text \<open>
  Claim C2, as stated: \<open>checkSignals\<close> returns \<open>NONE\<close> unless the window has at least
  100 candles and both the latest and the preceding snapshot exist with defined EMA and
  MACD fields. The detector never reads the EMA fields of the preceding snapshot: with
  a preceding snapshot that carries only its MACD, the window below yields a BUY.
\<close>

theorem C2_previous_ema_counterexample:
  "sig_type (checkSignals supportWindow [macdOnly 5880000 (- 1) 0, bullSnapshot]) = BUY \<and>
   \<not> emaMacdDefined (macdOnly 5880000 (- 1) 0)"
proof
  show "sig_type (checkSignals supportWindow [macdOnly 5880000 (- 1) 0, bullSnapshot]) = BUY"
    by (simp add: checkSignals_supportWindow crossover_samples)
  show "\<not> emaMacdDefined (macdOnly 5880000 (- 1) 0)"
    by (simp add: emaMacdDefined_def macdOnly_def)
qed

text \<open>
  Claim C2, amended. A window of fewer than 100 candles gives \<open>NONE\<close> for every
  indicator list. A result other than \<open>NONE\<close> requires at least 100 candles, both the
  latest and the preceding snapshot, defined \<open>ema7\<close>, \<open>ema25\<close>, \<open>ema99\<close> and \<open>macd\<close>
  fields in the latest snapshot, and a defined \<open>macd\<close> field in the preceding one.
\<close>

theorem C2_checkSignals_guard:
  "(length candles < 100 \<longrightarrow> sig_type (checkSignals candles inds) = NONE) \<and>
   (sig_type (checkSignals candles inds) \<noteq> NONE \<longrightarrow>
      100 \<le> length candles \<and>
      (\<exists>cur prev.
         at_index inds (int (length inds) - 1) = Some cur \<and>
         at_index inds (int (length inds) - 2) = Some prev \<and>
         emaMacdDefined cur \<and> macd prev \<noteq> None))"
proof (intro conjI impI)
  assume "length candles < 100"
  then show "sig_type (checkSignals candles inds) = NONE"
    by (simp add: checkSignals_short noSignal_type)
next
  assume fired: "sig_type (checkSignals candles inds) \<noteq> NONE"
  then show "100 \<le> length candles"
    using checkSignals_result [of candles inds] by (auto simp: noSignal_type)
next
  assume fired: "sig_type (checkSignals candles inds) \<noteq> NONE"
  then obtain cur prev where
    cur: "at_index inds (int (length inds) - 1) = Some cur" and
    prev: "at_index inds (int (length inds) - 2) = Some prev" and
    rules: "emasAligned cur \<and> macdBullishCrossover cur prev \<or>
            emasAlignedBearish cur \<and> macdBearishCrossover cur prev"
    using checkSignals_result [of candles inds] by (auto simp: noSignal_type)
  from rules have "emaMacdDefined cur \<and> macd prev \<noteq> None"
    unfolding emaMacdDefined_def
    using emasAligned_defined [of cur] emasAlignedBearish_defined [of cur]
      macdBullishCrossover_defined [of cur prev] macdBearishCrossover_defined [of cur prev]
    by blast
  with cur prev show "\<exists>cur prev.
         at_index inds (int (length inds) - 1) = Some cur \<and>
         at_index inds (int (length inds) - 2) = Some prev \<and>
         emaMacdDefined cur \<and> macd prev \<noteq> None"
    by blast
qed

theorem C2_checkSignals_guard_witness:
  "length (flatCandles 99) < 100 \<and>
   sig_type (checkSignals (flatCandles 99) [macdOnly 5880000 (- 1) 0, bullSnapshot]) = NONE \<and>
   sig_type (checkSignals supportWindow [macdOnly 5880000 (- 1) 0, bullSnapshot]) \<noteq> NONE \<and>
   100 \<le> length supportWindow \<and>
   emaMacdDefined bullSnapshot \<and> macd (macdOnly 5880000 (- 1) 0) \<noteq> None"
proof -
  have short: "length (flatCandles 99) < 100" by (simp add: flatCandles_def)
  have fired: "sig_type (checkSignals supportWindow [macdOnly 5880000 (- 1) 0, bullSnapshot]) \<noteq> NONE"
    by (simp add: checkSignals_supportWindow crossover_samples)
  note guard = C2_checkSignals_guard [of "flatCandles 99" "[macdOnly 5880000 (- 1) 0, bullSnapshot]"]
  note guard' = C2_checkSignals_guard [of supportWindow "[macdOnly 5880000 (- 1) 0, bullSnapshot]"]
  from guard short have a: "sig_type (checkSignals (flatCandles 99)
      [macdOnly 5880000 (- 1) 0, bullSnapshot]) = NONE"
    by blast
  from guard' fired have b: "100 \<le> length supportWindow \<and>
      (\<exists>cur prev.
         at_index [macdOnly 5880000 (- 1) 0, bullSnapshot]
           (int (length [macdOnly 5880000 (- 1) 0, bullSnapshot]) - 1) = Some cur \<and>
         at_index [macdOnly 5880000 (- 1) 0, bullSnapshot]
           (int (length [macdOnly 5880000 (- 1) 0, bullSnapshot]) - 2) = Some prev \<and>
         emaMacdDefined cur \<and> macd prev \<noteq> None)"
    by blast
  then have c: "emaMacdDefined bullSnapshot \<and> macd (macdOnly 5880000 (- 1) 0) \<noteq> None"
    unfolding pair_snapshots by auto
  show ?thesis using short a fired b c by blast
qed

text \<open>
  Claim C4, as stated: the bullish crossover holds exactly when the previous MACD line
  is at most the previous signal line and the current MACD line is above the current
  signal line, and symmetrically for the bearish one. The source compares the previous
  step strictly: when the previous MACD line equals the previous signal line, the
  claimed condition holds and the one of the source does not.
\<close>

theorem C4_touching_lines_counterexample:
  "claimed_macdBullCross bullSnapshot (macdOnly 5880000 0 0) \<and>
   \<not> macdBullishCrossover bullSnapshot (macdOnly 5880000 0 0) \<and>
   claimed_macdBearCross (bearSnapshot None) (macdOnly 5880000 0 0) \<and>
   \<not> macdBearishCrossover (bearSnapshot None) (macdOnly 5880000 0 0) \<and>
   sig_type (checkSignals supportWindow [macdOnly 5880000 0 0, bullSnapshot]) = NONE"
  by (simp add: claimed_macdBullCross_def claimed_macdBearCross_def crossover_samples
      checkSignals_supportWindow noSignal_type)
    (simp add: bullSnapshot_def bearSnapshot_def macdOnly_def)

text \<open>
  Claim C4, amended. When both snapshots have a MACD field, the bullish crossover
  holds exactly when the previous MACD line is strictly below the previous signal line
  and the current MACD line is strictly above the current signal line; the bearish
  crossover holds exactly when the previous MACD line is strictly above the previous
  signal line and the current MACD line is strictly below the current signal line.
\<close>

theorem C4_macd_crossover:
  assumes "macd cur = Some cm" "macd prev = Some pm"
  shows "(macdBullishCrossover cur prev \<longleftrightarrow>
            mv_macd pm < mv_signal pm \<and> mv_macd cm > mv_signal cm) \<and>
         (macdBearishCrossover cur prev \<longleftrightarrow>
            mv_macd pm > mv_signal pm \<and> mv_macd cm < mv_signal cm)"
  using assms by (simp add: macdBullishCrossover_def macdBearishCrossover_def)

theorem C4_macd_crossover_witness:
  "macd bullSnapshot = Some \<lparr> mv_macd = 1, mv_signal = 0, mv_histogram = 1 \<rparr> \<and>
   macd (macdOnly 5880000 (- 1) 0) = Some \<lparr> mv_macd = - 1, mv_signal = 0, mv_histogram = - 1 \<rparr> \<and>
   macdBullishCrossover bullSnapshot (macdOnly 5880000 (- 1) 0) \<and>
   \<not> macdBearishCrossover bullSnapshot (macdOnly 5880000 (- 1) 0)"
proof -
  have c: "macd bullSnapshot = Some \<lparr> mv_macd = 1, mv_signal = 0, mv_histogram = 1 \<rparr>"
    by (simp add: bullSnapshot_def)
  have p: "macd (macdOnly 5880000 (- 1) 0) =
      Some \<lparr> mv_macd = - 1, mv_signal = 0, mv_histogram = - 1 \<rparr>"
    by (simp add: macdOnly_def)
  show ?thesis using C4_macd_crossover [OF c p] c p by simp
qed

text \<open>The RSI guard where the \<open>rsi\<close> field is undefined, and where it is not zero.\<close>

lemma rsi_guard_undefined:
  "rsi cur = None \<Longrightarrow> rsiVal cur = 50 \<and> isRsiSafeBuy cur \<and> isRsiSafeSell cur"
  by (simp add: rsiVal_def isRsiSafeBuy_def isRsiSafeSell_def)

lemma rsi_guard_nonzero:
  "rsi cur = Some r \<Longrightarrow> r \<noteq> 0 \<Longrightarrow>
     (isRsiSafeBuy cur \<longleftrightarrow> r < 70) \<and> (isRsiSafeSell cur \<longleftrightarrow> r > 30)"
  by (simp add: rsiVal_def isRsiSafeBuy_def isRsiSafeSell_def)

text \<open>
  Claim C8 says that for a defined \<open>rsi\<close> the sell guard holds exactly when the RSI is
  above 30. An RSI of exactly 0 is defined, yet \<^verbatim>\<open>rsi || 50\<close> replaces it by 50: the
  guard holds, and the detector returns a SELL at the most oversold reading there is.
\<close>

theorem C8_rsi_zero_passes_sell_guard:
  "rsi (bearSnapshot (Some 0)) = Some 0 \<and>
   rsiVal (bearSnapshot (Some 0)) = 50 \<and>
   isRsiSafeSell (bearSnapshot (Some 0)) \<and>
   \<not> (0::real) > 30 \<and>
   sig_type (checkSignals resistanceWindow [macdOnly 5880000 1 0, bearSnapshot (Some 0)]) = SELL \<and>
   sig_type (checkSignals resistanceWindow [macdOnly 5880000 1 0, bearSnapshot (Some 1)]) = NONE"
proof -
  have z: "rsi (bearSnapshot (Some 0)) = Some 0" by (simp add: bearSnapshot_def)
  have v: "rsiVal (bearSnapshot (Some 0)) = 50" by (simp add: rsiVal_def z)
  have s: "isRsiSafeSell (bearSnapshot (Some 0))" by (simp add: isRsiSafeSell_def v)
  have o: "\<not> isRsiSafeSell (bearSnapshot (Some 1))"
    by (simp add: isRsiSafeSell_def rsiVal_def bearSnapshot_def)
  show ?thesis
    using z v s o by (simp add: checkSignals_resistanceWindow crossover_samples noSignal_type)
qed

text \<open>
  Claim C10. Whenever \<open>checkSignals\<close> returns a signal of type \<open>NONE\<close>, the value is
  exactly type \<open>NONE\<close>, price 0, time 0 and the empty reason; this covers windows
  shorter than 100 candles and indicator lists without two snapshots.
\<close>

theorem C10_none_is_sentinel:
  "(sig_type (checkSignals candles inds) = NONE \<longrightarrow>
      checkSignals candles inds =
        \<lparr> sig_type = NONE, sig_price = 0, sig_time = 0, sig_reason = '''' \<rparr>) \<and>
   (length candles < 100 \<or> length inds < 2 \<longrightarrow>
      checkSignals candles inds =
        \<lparr> sig_type = NONE, sig_price = 0, sig_time = 0, sig_reason = '''' \<rparr>)"
proof (intro conjI impI)
  assume "sig_type (checkSignals candles inds) = NONE"
  then have "checkSignals candles inds = noSignal" by (rule checkSignals_NONE)
  then show "checkSignals candles inds =
        \<lparr> sig_type = NONE, sig_price = 0, sig_time = 0, sig_reason = '''' \<rparr>"
    by (simp add: noSignal_def)
next
  assume "length candles < 100 \<or> length inds < 2"
  then have "checkSignals candles inds = noSignal"
    using checkSignals_short checkSignals_few_snapshots by blast
  then show "checkSignals candles inds =
        \<lparr> sig_type = NONE, sig_price = 0, sig_time = 0, sig_reason = '''' \<rparr>"
    by (simp add: noSignal_def)
qed

text \<open>No rule fires on touching MACD lines: the result carries 0, not the close of 150.\<close>

theorem C10_none_is_sentinel_witness:
  "sig_type (checkSignals supportWindow [macdOnly 5880000 0 0, bullSnapshot]) = NONE \<and>
   checkSignals supportWindow [macdOnly 5880000 0 0, bullSnapshot] =
     \<lparr> sig_type = NONE, sig_price = 0, sig_time = 0, sig_reason = '''' \<rparr> \<and>
   c_close (last supportWindow) = 150 \<and>
   length [bullSnapshot] < 2 \<and>
   checkSignals supportWindow [bullSnapshot] =
     \<lparr> sig_type = NONE, sig_price = 0, sig_time = 0, sig_reason = '''' \<rparr>"
proof -
  have n: "sig_type (checkSignals supportWindow [macdOnly 5880000 0 0, bullSnapshot]) = NONE"
    by (simp add: checkSignals_supportWindow crossover_samples noSignal_type)
  have f: "length [bullSnapshot] < 2" by simp
  from C10_none_is_sentinel [of supportWindow "[macdOnly 5880000 0 0, bullSnapshot]"] n
  have a: "checkSignals supportWindow [macdOnly 5880000 0 0, bullSnapshot] =
     \<lparr> sig_type = NONE, sig_price = 0, sig_time = 0, sig_reason = '''' \<rparr>"
    by blast
  from C10_none_is_sentinel [of supportWindow "[bullSnapshot]"] f
  have b: "checkSignals supportWindow [bullSnapshot] =
     \<lparr> sig_type = NONE, sig_price = 0, sig_time = 0, sig_reason = '''' \<rparr>"
    by blast
  show ?thesis using n a b f by (simp add: supportWindow_last)
qed

section \<open>Properties of the signal feed and the alert log\<close>

lemma startsWith_append: "startsWith (sub @ rest) sub"
  by (induction sub) simp_all

lemma str_includes_prefix: "str_includes (sub @ rest) sub"
  using startsWith_append [of sub rest] by (cases "sub @ rest") auto

lemma str_includes_middle: "str_includes (pre @ sub @ rest) sub"
proof (induction pre)
  case Nil
  then show ?case by (simp add: str_includes_prefix)
next
  case (Cons x pre)
  then show ?case by simp
qed

text \<open>
  A detection repeated immediately, with no other signal in between, leaves the
  session as it was: this is the case the duplicate test handles.
\<close>

lemma recordSignal_repeat:
  "recordSignal env interval s (recordSignal env interval s st) = recordSignal env interval s st"
proof (cases "length (signals st) > 0 \<and> sig_time (last (signals st)) = sig_time s \<and>
    str_includes (sig_reason (last (signals st))) interval")
  case True
  then have "recordSignal env interval s st = st"
    by (simp add: recordSignal_def Let_def)
  then show ?thesis by simp
next
  case False
  let ?tagged = "s\<lparr> sig_reason := ''['' @ interval @ ''] '' @ sig_reason s \<rparr>"
  have feed: "signals (recordSignal env interval s st) = slice_last 20 (signals st @ [?tagged])"
    using False by (auto simp: recordSignal_def Let_def)
  have ne: "signals (recordSignal env interval s st) \<noteq> []"
    and lst: "last (signals (recordSignal env interval s st)) = ?tagged"
    unfolding feed by (simp_all add: last_slice_last)
  have inc: "str_includes (sig_reason ?tagged) interval"
    using str_includes_middle [of "''[''" interval "''] '' @ sig_reason s"] by simp
  have "length (signals (recordSignal env interval s st)) > 0 \<and>
        sig_time (last (signals (recordSignal env interval s st))) = sig_time s \<and>
        str_includes (sig_reason (last (signals (recordSignal env interval s st)))) interval"
    using ne inc by (simp add: lst)
  then show ?thesis
    by (simp add: recordSignal_def [of env interval s "recordSignal env interval s st"] Let_def)
qed

lemma recordSignal_timeframes: "timeframes (recordSignal env interval s st) = timeframes st"
  by (simp add: recordSignal_def Let_def)

lemma processCandles_window:
  "tf_candles (timeframes (processCandles lib env interval cs st) interval) = cs"
  by (simp add: processCandles_def Let_def recordSignal_timeframes)

text \<open>The callback stores exactly the window that \<open>applyCandle\<close> computes.\<close>

lemma onCandle_window:
  "tf_candles (timeframes (onCandle lib env interval c st) interval) =
     applyCandle (tf_candles (timeframes st interval)) c"
  by (simp add: onCandle_def Let_def processCandles_window)

text \<open>
  Among the five intervals, the tag of one contains the name of another in one case
  only: \<^verbatim>\<open>[15m]\<close> contains \<^verbatim>\<open>5m\<close>.
\<close>

lemma interval_tag_clash:
  "\<forall>a \<in> set INTERVALS. \<forall>b \<in> set INTERVALS.
     str_includes (''['' @ b @ ''] '' @ sig_reason (detection t)) a \<longleftrightarrow>
       a = b \<or> (a = ''5m'' \<and> b = ''15m'')"
  by (simp add: INTERVALS_def detection_def)

text \<open>
  Claim C3 says that a detection repeated for the same timeframe with the same candle
  time is suppressed, whatever the other timeframes emit in between, so that the alert
  log receives one entry for that timeframe and time. The duplicate test looks only at
  the last entry of the feed shared by all timeframes. With a 1h detection between two
  5m detections of the candle at time 1000, the log receives two entries for
  (5m, 1000). And because the tag of 15m contains the text 5m, a first 5m detection
  that follows a 15m detection of the same time receives no entry at all.
\<close>

theorem C3_interleaved_duplicate:
  "map al_id (alertHistory
     (recordSignal sampleEnv ''5m'' (detection 1000)
       (recordSignal sampleEnv ''1h'' (detection 2000)
         (recordSignal sampleEnv ''5m'' (detection 1000) initialState)))) =
     [(''5m'', 1000), (''1h'', 2000), (''5m'', 1000)] \<and>
   map al_id (alertHistory
     (recordSignal sampleEnv ''5m'' (detection 1000)
       (recordSignal sampleEnv ''15m'' (detection 1000) initialState))) =
     [(''15m'', 1000)]"
  by (simp add: recordSignal_def Let_def initialState_def sampleEnv_def detection_def
      slice_last_def)

end
